theory Spec2Isabelle
  imports Main "HOL-Library.Sublist"
begin

section \<open>Text\<close>

text \<open>
  A Python \<open>str\<close> is a sequence of Unicode code points; it is modelled as a list of
  natural numbers, one per code point. String literals of the source are written
  \<open>U ''...''\<close>.
\<close>

type_synonym ustr = "nat list"

abbreviation (input) U :: "string \<Rightarrow> ustr" where
  "U s \<equiv> map of_char s"

text \<open>
  The characters \<open>str.strip()\<close> removes and the class \<open>\s\<close> of \<open>re\<close> on a
  \<open>str\<close> pattern: both are CPython's \<open>Py_UNICODE_ISSPACE\<close>.
\<close>

definition is_space :: "nat \<Rightarrow> bool" where
  "is_space c \<longleftrightarrow>
     (9 \<le> c \<and> c \<le> 13) \<or> (28 \<le> c \<and> c \<le> 32) \<or> c = 133 \<or> c = 160 \<or> c = 5760 \<or>
     (8192 \<le> c \<and> c \<le> 8202) \<or> c = 8232 \<or> c = 8233 \<or> c = 8239 \<or> c = 8287 \<or>
     c = 12288"

text \<open>The character class \<open>[a-zA-Z0-9._-]\<close>.\<close>

definition is_allowed :: "nat \<Rightarrow> bool" where
  "is_allowed c \<longleftrightarrow>
     (97 \<le> c \<and> c \<le> 122) \<or> (65 \<le> c \<and> c \<le> 90) \<or> (48 \<le> c \<and> c \<le> 57) \<or>
     c = 46 \<or> c = 95 \<or> c = 45"

text \<open>\<open>s.strip()\<close>: leading and trailing whitespace removed.\<close>

definition strip :: "ustr \<Rightarrow> ustr" where
  "strip s = rev (dropWhile is_space (rev (dropWhile is_space s)))"

text \<open>
  \<open>re.sub(r"\s+", "-", s)\<close>: every maximal run of whitespace becomes one hyphen
  (code point 45).
\<close>

function sub_spaces :: "ustr \<Rightarrow> ustr" where
  "sub_spaces [] = []"
| "sub_spaces (c # cs) =
     (if is_space c then 45 # sub_spaces (dropWhile is_space cs) else c # sub_spaces cs)"
  by pat_completeness auto
termination
  by (relation "measure length") (auto simp: length_dropWhile_le less_Suc_eq_le)

text \<open>\<open>re.sub(r"[^a-zA-Z0-9._-]+", "", s)\<close>: every character outside the class is deleted.\<close>

definition sub_disallowed :: "ustr \<Rightarrow> ustr" where
  "sub_disallowed s = filter is_allowed s"

text \<open>
  \<^verbatim>\<open>
  def safe_name(s: str) -> str:
      s = s.strip()
      s = re.sub(r"\s+", "-", s)
      s = re.sub(r"[^a-zA-Z0-9._-]+", "", s)
      return s[:120] if s else "bundle"
  \<close>
\<close>

definition safe_name :: "ustr \<Rightarrow> ustr" where
  "safe_name s0 =
     (let s = strip s0;
          s = sub_spaces s;
          s = sub_disallowed s
      in if s \<noteq> [] then take 120 s else U ''bundle'')"

text \<open>
  A full match of \<open>^[A-Za-z0-9._-]{1,120}$\<close>: between 1 and 120 characters, all of the
  class.
\<close>

definition matches_token :: "ustr \<Rightarrow> bool" where
  "matches_token s \<longleftrightarrow> 1 \<le> length s \<and> length s \<le> 120 \<and> list_all is_allowed s"

section \<open>Paths\<close>

text \<open>
  A \<open>pathlib.Path\<close> is modelled by its parts below the root. \<open>pjoin p n\<close> is
  \<open>p / n\<close> for a name \<open>n\<close> without a separator (every name the program joins is a
  literal, a UUID or a result of \<open>safe_name\<close> with a literal suffix); pathlib drops an
  empty or \<open>.\<close> component and keeps \<open>..\<close> as it is.
\<close>

type_synonym path = "ustr list"

definition pjoin :: "path \<Rightarrow> ustr \<Rightarrow> path" where
  "pjoin p n = (if n = [] \<or> n = U ''.'' then p else p @ [n])"

text \<open>\<open>str(p)\<close>: the parts, each behind a slash (code point 47).\<close>

definition path_str :: "path \<Rightarrow> ustr" where
  "path_str p = concat (map (\<lambda>c. 47 # c) p)"

definition path_name :: "path \<Rightarrow> ustr" where
  "path_name p = (if p = [] then [] else last p)"

text \<open>\<open>s.rfind(c)\<close>: the last index of \<open>c\<close>, \<open>None\<close> for Python's \<open>-1\<close>.\<close>

fun rfind :: "nat \<Rightarrow> ustr \<Rightarrow> nat option" where
  "rfind c [] = None"
| "rfind c (x # xs) =
     (case rfind c xs of Some i \<Rightarrow> Some (Suc i) | None \<Rightarrow> if x = c then Some 0 else None)"

text \<open>
  \<open>PurePath.suffix\<close> (Python up to 3.13):
  \<^verbatim>\<open>
  name = self.name
  i = name.rfind('.')
  if 0 < i < len(name) - 1: return name[i:]
  else: return ''
  \<close>
  Python 3.14 also accepts a trailing dot as the suffix \<open>.\<close>, which is none of the
  extensions the program compares with.
\<close>

definition path_suffix :: "path \<Rightarrow> ustr" where
  "path_suffix p =
     (let name = path_name p in
      case rfind 46 name of
        None \<Rightarrow> []
      | Some i \<Rightarrow> if 0 < i \<and> Suc i < length name then drop i name else [])"

text \<open>
  \<open>s.lower()\<close> on the letters A to Z. Outside ASCII \<open>str.lower\<close> maps only the Kelvin
  sign to an ASCII letter (\<open>k\<close>), and no extension the program compares with has a
  \<open>k\<close>, so the comparisons below come out as in Python for every name.
\<close>

definition lower :: "ustr \<Rightarrow> ustr" where
  "lower s = map (\<lambda>c. if 65 \<le> c \<and> c \<le> 90 then c + 32 else c) s"

section \<open>Exceptions, processes and the environment\<close>

text \<open>
  An exception is a value. \<open>RuntimeError m\<close> and \<open>HTTPException status detail\<close> are the
  two classes the program raises or catches by name; \<open>OtherException\<close> is every other
  subclass of \<open>Exception\<close> a library call may raise (\<open>OSError\<close>, \<open>ValueError\<close>,
  \<open>TypeError\<close>, ...). Asynchronous interrupts (\<open>KeyboardInterrupt\<close>) are not
  modelled.
\<close>

datatype exn = RuntimeError ustr | HTTPException nat ustr | OtherException ustr

text \<open>The \<open>CompletedProcess\<close> of \<open>subprocess.run(..., text=True)\<close>.\<close>

record proc =
  returncode :: int
  stdout :: ustr
  stderr :: ustr

text \<open>The content of a directory: regular files and directories, in \<open>os.scandir\<close> order.\<close>

datatype node = File ustr | Dir ustr "node list"

text \<open>
  What \<open>json.loads\<close> returns. A \<open>dict\<close> keeps its items in insertion order; \<open>'f\<close>
  is the type of 64-bit floats, which the program only passes on.
\<close>

datatype 'f json =
  JNull | JBool bool | JInt int | JFloat 'f | JStr ustr
  | JList "'f json list" | JDict "(ustr \<times> 'f json) list"

text \<open>The form data of the upload that the program reads.\<close>

record upload_file =
  filename :: "ustr option"
  content_type :: "ustr option"

text \<open>The row of table \<open>bundles\<close> and the body of the response.\<close>

record bundle_row =
  row_id :: ustr
  row_name :: ustr
  row_description :: ustr
  row_bounds :: "ustr option"
  row_source_key :: ustr
  row_pmtiles_key :: ustr

record 'f bundle_json =
  json_id :: ustr
  json_name :: ustr
  json_description :: ustr
  json_bounds :: "'f list option"
  json_source_key :: ustr
  json_pmtiles_key :: ustr
  json_pmtiles_url :: ustr

text \<open>
  Everything outside the program: the operating system, the external tools, the object
  store, the catalog and the library functions whose results the program only uses. The
  world \<open>'w\<close> is whatever they read and change. A call that can raise returns
  \<open>Inl\<close> of its exception.
\<close>

record ('w, 'f) env =
  subprocess_run :: "ustr list \<Rightarrow> 'w \<Rightarrow> (exn + proc) \<times> 'w"
  repr_list :: "ustr list \<Rightarrow> ustr"
  json_loads :: "ustr \<Rightarrow> exn + 'f json"
  float_of_int :: "int \<Rightarrow> exn + 'f"
  float_of_str :: "ustr \<Rightarrow> exn + 'f"
  json_dumps :: "'f list \<Rightarrow> ustr"
  scandir :: "path \<Rightarrow> 'w \<Rightarrow> node list"
  os_mkdir :: "path \<Rightarrow> 'w \<Rightarrow> (exn + unit) \<times> 'w"
  write_upload :: "path \<Rightarrow> upload_file \<Rightarrow> 'w \<Rightarrow> (exn + unit) \<times> 'w"
  s3_upload_file :: "ustr \<Rightarrow> ustr \<Rightarrow> ustr \<Rightarrow> (ustr \<times> ustr) list \<Rightarrow> 'w \<Rightarrow> (exn + unit) \<times> 'w"
  db_insert :: "bundle_row \<Rightarrow> 'w \<Rightarrow> (exn + unit) \<times> 'w"
  render_json :: "'f bundle_json \<Rightarrow> exn + 'f bundle_json"
  shutil_rmtree :: "path \<Rightarrow> 'w \<Rightarrow> (exn + unit) \<times> 'w"

text \<open>
  The effects of a run, in order. The trace is a ghost variable: the program does not
  read it. An \<open>Exec\<close> event keeps the outcome of \<open>subprocess.run\<close>.
\<close>

datatype event =
  Exec "ustr list" "exn + proc"
  | Mkdir path
  | SaveUpload path
  | S3Put ustr ustr
  | DbInsert ustr
  | Rmtree path

record 'w state =
  world :: 'w
  trace :: "event list"

type_synonym ('w, 'a) action = "'w state \<Rightarrow> (exn + 'a) \<times> 'w state"

text \<open>Statement after statement: an exception ends the sequence.\<close>

definition ret :: "'a \<Rightarrow> ('w, 'a) action" where
  "ret x st = (Inr x, st)"

definition raise :: "exn \<Rightarrow> ('w, 'a) action" where
  "raise e st = (Inl e, st)"

definition and_then :: "('w, 'a) action \<Rightarrow> ('a \<Rightarrow> ('w, 'b) action) \<Rightarrow> ('w, 'b) action" where
  "and_then m f st = (case m st of (Inl e, st') \<Rightarrow> (Inl e, st') | (Inr x, st') \<Rightarrow> f x st')"

text \<open>A pure library call that may raise.\<close>

definition lift :: "exn + 'a \<Rightarrow> ('w, 'a) action" where
  "lift r st = (r, st)"

text \<open>An operation on the world, with the event it leaves in the trace.\<close>

definition effect :: "('w \<Rightarrow> (exn + 'a) \<times> 'w) \<Rightarrow> event \<Rightarrow> ('w, 'a) action" where
  "effect f ev st =
     (case f (world st) of (r, w) \<Rightarrow> (r, \<lparr>world = w, trace = trace st @ [ev]\<rparr>))"

section \<open>Running external tools\<close>

text \<open>
  \<^verbatim>\<open>
  def run(cmd, cwd=None):
      p = subprocess.run(cmd, cwd=..., stdout=PIPE, stderr=PIPE, text=True)
      if p.returncode != 0:
          raise RuntimeError(f"Command failed: {cmd}\nSTDOUT:\n{p.stdout}\nSTDERR:\n{p.stderr}")
      return p.stdout
  \<close>
  No caller passes \<open>cwd\<close>. Code point 10 is the newline.
\<close>

definition command_failed :: "('w, 'f) env \<Rightarrow> ustr list \<Rightarrow> proc \<Rightarrow> ustr" where
  "command_failed env cmd p =
     U ''Command failed: '' @ repr_list env cmd @ [10] @ U ''STDOUT:'' @ [10] @ stdout p
       @ [10] @ U ''STDERR:'' @ [10] @ stderr p"

definition run :: "('w, 'f) env \<Rightarrow> ustr list \<Rightarrow> ('w, ustr) action" where
  "run env cmd st =
     (case subprocess_run env cmd (world st) of
        (out, w) \<Rightarrow>
          (let st' = \<lparr>world = w, trace = trace st @ [Exec cmd out]\<rparr> in
           case out of
             Inl e \<Rightarrow> (Inl e, st')
           | Inr p \<Rightarrow>
               if returncode p \<noteq> 0 then (Inl (RuntimeError (command_failed env cmd p)), st')
               else (Inr (stdout p), st')))"

section \<open>The extent prober\<close>

text \<open>Truth value of a list or \<open>None\<close>: \<open>if r:\<close>.\<close>

definition truthy :: "'a list option \<Rightarrow> bool" where
  "truthy r = (case r of None \<Rightarrow> False | Some xs \<Rightarrow> xs \<noteq> [])"

text \<open>
  \<open>"extent" in obj and isinstance(obj["extent"], (list, tuple)) and len(obj["extent"]) == 4\<close>,
  with the value when the test holds (\<open>json.loads\<close> builds no tuple).
\<close>

definition own_extent :: "(ustr \<times> 'f json) list \<Rightarrow> 'f json list option" where
  "own_extent kvs =
     (case map_of kvs (U ''extent'') of
        Some (JList xs) \<Rightarrow> if length xs = 4 then Some xs else None
      | _ \<Rightarrow> None)"

text \<open>
  \<^verbatim>\<open>
  def find_extent(obj):
      if isinstance(obj, dict):
          if "extent" in obj and isinstance(obj["extent"], (list, tuple)) and len(obj["extent"]) == 4:
              return obj["extent"]
          for v in obj.values():
              r = find_extent(v)
              if r:
                  return r
      if isinstance(obj, list):
          for v in obj:
              r = find_extent(v)
              if r:
                  return r
      return None
  \<close>
  \<open>find_extent_values\<close> is the loop over \<open>obj.values()\<close>, \<open>find_extent_items\<close> the loop
  over a list; after either loop the function returns \<open>None\<close>.
\<close>

function find_extent :: "'f json \<Rightarrow> 'f json list option"
  and find_extent_values :: "(ustr \<times> 'f json) list \<Rightarrow> 'f json list option"
  and find_extent_items :: "'f json list \<Rightarrow> 'f json list option"
where
  "find_extent (JDict kvs) =
     (case own_extent kvs of Some xs \<Rightarrow> Some xs | None \<Rightarrow> find_extent_values kvs)"
| "find_extent (JList vs) = find_extent_items vs"
| "find_extent JNull = None"
| "find_extent (JBool b) = None"
| "find_extent (JInt n) = None"
| "find_extent (JFloat x) = None"
| "find_extent (JStr s) = None"
| "find_extent_values [] = None"
| "find_extent_values (kv # kvs) =
     (let r = find_extent (snd kv) in if truthy r then r else find_extent_values kvs)"
| "find_extent_items [] = None"
| "find_extent_items (v # vs) =
     (let r = find_extent v in if truthy r then r else find_extent_items vs)"
  by pat_completeness auto
termination
proof -
  have size_item: "size_prod (\<lambda>k. 0) size = (\<lambda>kv. Suc (size (snd kv)))"
    by (auto simp: fun_eq_iff)
  show ?thesis
    by (relation "measure (\<lambda>x. case x of
          Inl j \<Rightarrow> size j
        | Inr (Inl kvs) \<Rightarrow> size_list (\<lambda>kv. Suc (size (snd kv))) kvs
        | Inr (Inr vs) \<Rightarrow> size_list size vs)")
      (auto simp: size_item)
qed

text \<open>
  \<open>float(x)\<close> for a value of the report: an \<open>int\<close> or \<open>bool\<close> converts (or overflows),
  a \<open>float\<close> is itself, a \<open>str\<close> is parsed, everything else is a \<open>TypeError\<close>.
\<close>

fun py_float :: "('w, 'f) env \<Rightarrow> 'f json \<Rightarrow> exn + 'f" where
  "py_float env (JInt n) = float_of_int env n"
| "py_float env (JBool b) = float_of_int env (if b then 1 else 0)"
| "py_float env (JFloat x) = Inr x"
| "py_float env (JStr s) = float_of_str env s"
| "py_float env JNull = Inl (OtherException (U ''TypeError''))"
| "py_float env (JList vs) = Inl (OtherException (U ''TypeError''))"
| "py_float env (JDict kvs) = Inl (OtherException (U ''TypeError''))"

definition ogrinfo_cmd :: "path \<Rightarrow> ustr list" where
  "ogrinfo_cmd dataset_path =
     [U ''ogrinfo'', U ''-so'', U ''-al'', U ''-json'', path_str dataset_path]"

text \<open>
  The body of the \<open>try\<close> of \<open>ogrinfo_bounds\<close>:
  \<^verbatim>\<open>
  out = run(["ogrinfo", "-so", "-al", "-json", str(dataset_path)])
  j = json.loads(out)
  ext = find_extent(j)
  if ext and len(ext) == 4:
      return [float(ext[0]), float(ext[1]), float(ext[2]), float(ext[3])]
  \<close>
  and the \<open>return None\<close> after the \<open>try\<close> statement.
\<close>

definition ogrinfo_bounds_try :: "('w, 'f) env \<Rightarrow> path \<Rightarrow> ('w, 'f list option) action" where
  "ogrinfo_bounds_try env dataset_path =
     and_then (run env (ogrinfo_cmd dataset_path)) (\<lambda>out.
     and_then (lift (json_loads env out)) (\<lambda>j.
     (let ext = find_extent j in
      if truthy ext \<and> length (the ext) = 4 then
        and_then (lift (py_float env (the ext ! 0))) (\<lambda>x0.
        and_then (lift (py_float env (the ext ! 1))) (\<lambda>x1.
        and_then (lift (py_float env (the ext ! 2))) (\<lambda>x2.
        and_then (lift (py_float env (the ext ! 3))) (\<lambda>x3.
        ret (Some [x0, x1, x2, x3])))))
      else ret None)))"

text \<open>\<open>except Exception: return None\<close> around that body.\<close>

definition ogrinfo_bounds :: "('w, 'f) env \<Rightarrow> path \<Rightarrow> ('w, 'f list option) action" where
  "ogrinfo_bounds env dataset_path st =
     (case ogrinfo_bounds_try env dataset_path st of
        (Inl e, st') \<Rightarrow> (Inr None, st')
      | (Inr r, st') \<Rightarrow> (Inr r, st'))"

section \<open>The conversion stages\<close>

definition ogr2ogr_cmd :: "path \<Rightarrow> path \<Rightarrow> ustr list" where
  "ogr2ogr_cmd src_path dst_geojson =
     [U ''ogr2ogr'', U ''-f'', U ''GeoJSON'', U ''-t_srs'', U ''EPSG:4326'',
      path_str dst_geojson, path_str src_path]"

definition tippecanoe_cmd :: "path \<Rightarrow> path \<Rightarrow> ustr \<Rightarrow> ustr list" where
  "tippecanoe_cmd geojson_path mbtiles_path layer_name =
     [U ''tippecanoe'', U ''-o'', path_str mbtiles_path, U ''-l'', layer_name, U ''-zg'',
      U ''--drop-densest-as-needed'', U ''--extend-zooms-if-still-dropping'',
      path_str geojson_path]"

definition pmtiles_cmd :: "path \<Rightarrow> path \<Rightarrow> ustr list" where
  "pmtiles_cmd mbtiles_path pmtiles_path =
     [U ''pmtiles'', U ''convert'', path_str mbtiles_path, path_str pmtiles_path]"

definition convert_to_geojson :: "('w, 'f) env \<Rightarrow> path \<Rightarrow> path \<Rightarrow> ('w, unit) action" where
  "convert_to_geojson env src_path dst_geojson =
     and_then (run env (ogr2ogr_cmd src_path dst_geojson)) (\<lambda>_. ret ())"

definition tippecanoe_to_mbtiles ::
  "('w, 'f) env \<Rightarrow> path \<Rightarrow> path \<Rightarrow> ustr \<Rightarrow> ('w, unit) action" where
  "tippecanoe_to_mbtiles env geojson_path mbtiles_path layer_name =
     and_then (run env (tippecanoe_cmd geojson_path mbtiles_path layer_name)) (\<lambda>_. ret ())"

definition mbtiles_to_pmtiles :: "('w, 'f) env \<Rightarrow> path \<Rightarrow> path \<Rightarrow> ('w, unit) action" where
  "mbtiles_to_pmtiles env mbtiles_path pmtiles_path =
     and_then (run env (pmtiles_cmd mbtiles_path pmtiles_path)) (\<lambda>_. ret ())"

section \<open>Unpacking a container\<close>

text \<open>
  \<open>Path.rglob\<close> (pathlib of Python 3.11 and 3.12) visits the directory, then each
  subdirectory in \<open>scandir\<close> order, depth first, and in every directory visited yields
  the entries whose name matches the pattern, files and directories alike.
  \<open>subdirs\<close> lists the directories below a directory in that order, each with its
  entries.
\<close>

function subdirs :: "path \<Rightarrow> node list \<Rightarrow> (path \<times> node list) list" where
  "subdirs p [] = []"
| "subdirs p (File n # es) = subdirs p es"
| "subdirs p (Dir n sub # es) = (p @ [n], sub) # subdirs (p @ [n]) sub @ subdirs p es"
  by pat_completeness auto
termination
  by (relation "measure (\<lambda>(p, es). size_list size es)") auto

fun node_name :: "node \<Rightarrow> ustr" where
  "node_name (File n) = n"
| "node_name (Dir n sub) = n"

fun is_file :: "node \<Rightarrow> bool" where
  "is_file (File n) = True"
| "is_file (Dir n sub) = False"

definition matching :: "(ustr \<Rightarrow> bool) \<Rightarrow> path \<times> node list \<Rightarrow> (path \<times> node) list" where
  "matching pat d =
     map (\<lambda>e. (fst d @ [node_name e], e)) (filter (\<lambda>e. pat (node_name e)) (snd d))"

definition rglob :: "(ustr \<Rightarrow> bool) \<Rightarrow> path \<Rightarrow> node list \<Rightarrow> (path \<times> node) list" where
  "rglob pat p es = concat (map (matching pat) ((p, es) # subdirs p es))"

text \<open>The patterns \<open>*.shp\<close> and \<open>*\<close>; matching is case-sensitive on POSIX.\<close>

definition glob_shp :: "ustr \<Rightarrow> bool" where
  "glob_shp n \<longleftrightarrow> 4 \<le> length n \<and> drop (length n - 4) n = U ''.shp''"

definition glob_any :: "ustr \<Rightarrow> bool" where
  "glob_any n \<longleftrightarrow> True"

text \<open>\<open>next(it, None)\<close>.\<close>

definition next_or_none :: "'a list \<Rightarrow> 'a option" where
  "next_or_none xs = (case xs of [] \<Rightarrow> None | x # _ \<Rightarrow> Some x)"

text \<open>
  \<^verbatim>\<open>
  shp = next(unzip_dir.rglob("*.shp"), None)
  if shp:
      src_for_ogr = shp
  else:
      any_file = next((p for p in unzip_dir.rglob("*") if p.is_file()), None)
      if not any_file:
          raise HTTPException(400, "Zip was empty or contained no files.")
      src_for_ogr = any_file
  \<close>
  A \<open>Path\<close> is always true.
\<close>

definition select_member :: "path \<Rightarrow> node list \<Rightarrow> exn + path" where
  "select_member unzip_dir es =
     (case next_or_none (rglob glob_shp unzip_dir es) of
        Some shp \<Rightarrow> Inr (fst shp)
      | None \<Rightarrow>
          (case next_or_none (filter (\<lambda>p. is_file (snd p)) (rglob glob_any unzip_dir es)) of
             None \<Rightarrow> Inl (HTTPException 400 (U ''Zip was empty or contained no files.''))
           | Some any_file \<Rightarrow> Inr (fst any_file)))"

definition unzip_cmd :: "path \<Rightarrow> path \<Rightarrow> ustr list" where
  "unzip_cmd upload_path unzip_dir =
     [U ''unzip'', U ''-o'', path_str upload_path, U ''-d'', path_str unzip_dir]"

text \<open>
  \<^verbatim>\<open>
  unzip_dir = work / "unzipped"
  unzip_dir.mkdir(exist_ok=True)
  run(["unzip", "-o", str(upload_path), "-d", str(unzip_dir)])
  \<close>
  and the selection above, on the directory as the tool left it.
\<close>

definition unpack :: "('w, 'f) env \<Rightarrow> path \<Rightarrow> path \<Rightarrow> ('w, path) action" where
  "unpack env upload_path work =
     (let unzip_dir = pjoin work (U ''unzipped'') in
      and_then (effect (os_mkdir env unzip_dir) (Mkdir unzip_dir)) (\<lambda>_.
      and_then (run env (unzip_cmd upload_path unzip_dir)) (\<lambda>_.
      (\<lambda>st. lift (select_member unzip_dir (scandir env unzip_dir (world st))) st))))"

section \<open>The pipeline core\<close>

text \<open>
  \<^verbatim>\<open>
  def ensure_pmtiles(upload_path, bundle_name, work):
      bounds = None
      ext = upload_path.suffix.lower()
      if ext == ".pmtiles":
          return upload_path, None
      if ext == ".mbtiles":
          pm = work / f"{safe_name(bundle_name)}.pmtiles"
          mbtiles_to_pmtiles(upload_path, pm)
          return pm, None
      src_for_ogr = upload_path
      if ext == ".zip":
          ... (unpack)
      bounds = ogrinfo_bounds(src_for_ogr)
      if ext in (".geojson", ".json"):
          geojson = upload_path
      else:
          geojson = work / "converted.geojson"
          convert_to_geojson(src_for_ogr, geojson)
      mb = work / "out.mbtiles"
      pm = work / f"{safe_name(bundle_name)}.pmtiles"
      tippecanoe_to_mbtiles(geojson, mb, layer_name=safe_name(bundle_name))
      mbtiles_to_pmtiles(mb, pm)
      return pm, bounds
  \<close>
\<close>

definition ensure_pmtiles ::
  "('w, 'f) env \<Rightarrow> path \<Rightarrow> ustr \<Rightarrow> path \<Rightarrow> ('w, path \<times> 'f list option) action" where
  "ensure_pmtiles env upload_path bundle_name work =
     (let ext = lower (path_suffix upload_path) in
      if ext = U ''.pmtiles'' then ret (upload_path, None)
      else if ext = U ''.mbtiles'' then
        (let pm = pjoin work (safe_name bundle_name @ U ''.pmtiles'') in
         and_then (mbtiles_to_pmtiles env upload_path pm) (\<lambda>_. ret (pm, None)))
      else
        and_then (if ext = U ''.zip'' then unpack env upload_path work else ret upload_path)
          (\<lambda>src_for_ogr.
        and_then (ogrinfo_bounds env src_for_ogr) (\<lambda>bounds.
        and_then
          (if ext = U ''.geojson'' \<or> ext = U ''.json'' then ret upload_path
           else (let geojson = pjoin work (U ''converted.geojson'') in
                 and_then (convert_to_geojson env src_for_ogr geojson) (\<lambda>_. ret geojson)))
          (\<lambda>geojson.
        (let mb = pjoin work (U ''out.mbtiles'');
             pm = pjoin work (safe_name bundle_name @ U ''.pmtiles'') in
         and_then (tippecanoe_to_mbtiles env geojson mb (safe_name bundle_name)) (\<lambda>_.
         and_then (mbtiles_to_pmtiles env mb pm) (\<lambda>_.
         ret (pm, bounds))))))))"

section \<open>The driver\<close>

text \<open>The module constants read from the process environment.\<close>

record config =
  WORKDIR :: path
  S3_BUCKET :: ustr
  PUBLIC_TILES_BASE :: ustr

text \<open>
  \<^verbatim>\<open>
  def s3_put_file(local_path, key, content_type=None):
      extra = {}
      if content_type:
          extra["ContentType"] = content_type
      s3.upload_file(str(local_path), S3_BUCKET, key, ExtraArgs=extra)
  \<close>
\<close>

definition s3_put_file ::
  "('w, 'f) env \<Rightarrow> config \<Rightarrow> path \<Rightarrow> ustr \<Rightarrow> ustr option \<Rightarrow> ('w, unit) action" where
  "s3_put_file env cfg local_path key ctype =
     (let extra = (case ctype of
                     None \<Rightarrow> []
                   | Some c \<Rightarrow> if c \<noteq> [] then [(U ''ContentType'', c)] else []) in
      effect (s3_upload_file env (path_str local_path) (S3_BUCKET cfg) key extra)
        (S3Put (path_str local_path) key))"

text \<open>\<open>a or b\<close> on an optional string.\<close>

definition or_else :: "ustr option \<Rightarrow> ustr \<Rightarrow> ustr" where
  "or_else a b = (case a of None \<Rightarrow> b | Some s \<Rightarrow> if s \<noteq> [] then s else b)"

text \<open>
  The body of the \<open>try\<close> of \<open>create_bundle\<close> (lines 264 to 294): the upload is written
  to \<open>work / original_filename\<close> (the \<open>open\<close> and the copy loop are one operation of
  the environment), stored under \<open>sources/\<close>, converted, the archive stored under
  \<open>pmtiles/\<close>, the row inserted and the response built.
\<close>

definition create_bundle_try ::
  "('w, 'f) env \<Rightarrow> config \<Rightarrow> ustr \<Rightarrow> ustr \<Rightarrow> ustr \<Rightarrow> ustr \<Rightarrow> upload_file \<Rightarrow> path
     \<Rightarrow> ('w, 'f bundle_json) action" where
  "create_bundle_try env cfg bundle_id bundle_name description original_filename file work =
     (let upload_path = pjoin work original_filename in
      and_then (effect (write_upload env upload_path file) (SaveUpload upload_path)) (\<lambda>_.
      (let source_key = U ''sources/'' @ bundle_id @ U ''/'' @ original_filename in
       and_then (s3_put_file env cfg upload_path source_key
                   (Some (or_else (content_type file) (U ''application/octet-stream''))))
         (\<lambda>_.
       and_then (ensure_pmtiles env upload_path bundle_name work) (\<lambda>(pmtiles_path, bounds).
       (let pmtiles_key =
              U ''pmtiles/'' @ bundle_id @ U ''/'' @ safe_name bundle_name @ U ''.pmtiles'' in
        and_then (s3_put_file env cfg pmtiles_path pmtiles_key
                    (Some (U ''application/octet-stream''))) (\<lambda>_.
        and_then (effect (db_insert env
                    \<lparr>row_id = bundle_id, row_name = bundle_name,
                     row_description = description,
                     row_bounds = (if truthy bounds then Some (json_dumps env (the bounds))
                                   else None),
                     row_source_key = source_key, row_pmtiles_key = pmtiles_key\<rparr>)
                    (DbInsert bundle_id)) (\<lambda>_.
        lift (render_json env
               \<lparr>json_id = bundle_id, json_name = bundle_name,
                json_description = description, json_bounds = bounds,
                json_source_key = source_key, json_pmtiles_key = pmtiles_key,
                json_pmtiles_url = PUBLIC_TILES_BASE cfg @ U ''/'' @ pmtiles_key\<rparr>)))))))))"

text \<open>\<open>except RuntimeError as e: raise HTTPException(400, str(e))\<close>.\<close>

definition except_runtime_error :: "exn + 'a \<Rightarrow> exn + 'a" where
  "except_runtime_error r =
     (case r of Inl (RuntimeError m) \<Rightarrow> Inl (HTTPException 400 m) | _ \<Rightarrow> r)"

text \<open>
  \<open>shutil.rmtree(work, ignore_errors=True)\<close>: an error of the removal is dropped.
\<close>

definition rmtree_ignore_errors :: "('w, 'f) env \<Rightarrow> path \<Rightarrow> 'w state \<Rightarrow> 'w state" where
  "rmtree_ignore_errors env p st = snd (effect (shutil_rmtree env p) (Rmtree p) st)"

text \<open>
  \<^verbatim>\<open>
  async def create_bundle(name, description, file):
      bundle_id = str(uuid.uuid4())
      bundle_name = name.strip() or "bundle"
      original_filename = file.filename or "upload"
      original_filename = safe_name(original_filename)
      work = WORKDIR / bundle_id
      work.mkdir(parents=True, exist_ok=True)
      try:
          ...
      except RuntimeError as e:
          raise HTTPException(400, str(e))
      finally:
          shutil.rmtree(work, ignore_errors=True)
  \<close>
  The fresh UUID is a parameter. The \<open>mkdir\<close> stands before the \<open>try\<close>: when it
  raises, neither handler runs.
\<close>

definition create_bundle ::
  "('w, 'f) env \<Rightarrow> config \<Rightarrow> ustr \<Rightarrow> ustr \<Rightarrow> ustr \<Rightarrow> upload_file
     \<Rightarrow> ('w, 'f bundle_json) action" where
  "create_bundle env cfg bundle_id name description file st =
     (let bundle_name = or_else (Some (strip name)) (U ''bundle'');
          original_filename = safe_name (or_else (filename file) (U ''upload''));
          work = pjoin (WORKDIR cfg) bundle_id in
      case effect (os_mkdir env work) (Mkdir work) st of
        (Inl e, st1) \<Rightarrow> (Inl e, st1)
      | (Inr _, st1) \<Rightarrow>
          (case create_bundle_try env cfg bundle_id bundle_name description
                  original_filename file work st1 of
             (r, st2) \<Rightarrow> (except_runtime_error r, rmtree_ignore_errors env work st2)))"

section \<open>Routes and stages, in the words of the specification\<close>

datatype route = PassThrough | FromTileDatabase | FromInterchange | FromGenericOgr

datatype stage = GenericToInterchange | InterchangeToTileDatabase | TileDatabaseToArchive

text \<open>The routing table of the specification, for an extension that is not \<open>.zip\<close>.\<close>

definition route_of_ext :: "ustr \<Rightarrow> route" where
  "route_of_ext ext =
     (if ext = U ''.pmtiles'' then PassThrough
      else if ext = U ''.mbtiles'' then FromTileDatabase
      else if ext = U ''.geojson'' \<or> ext = U ''.json'' then FromInterchange
      else FromGenericOgr)"

fun stages_of :: "route \<Rightarrow> stage list" where
  "stages_of PassThrough = []"
| "stages_of FromTileDatabase = [TileDatabaseToArchive]"
| "stages_of FromInterchange = [InterchangeToTileDatabase, TileDatabaseToArchive]"
| "stages_of FromGenericOgr =
     [GenericToInterchange, InterchangeToTileDatabase, TileDatabaseToArchive]"

text \<open>The routes on which the specification has the extent prober run.\<close>

fun probes :: "route \<Rightarrow> bool" where
  "probes PassThrough = False"
| "probes FromTileDatabase = False"
| "probes FromInterchange = True"
| "probes FromGenericOgr = True"

text \<open>The stage a command belongs to, by the tool it starts.\<close>

definition stage_of_cmd :: "ustr list \<Rightarrow> stage option" where
  "stage_of_cmd cmd =
     (case cmd of
        [] \<Rightarrow> None
      | prog # args \<Rightarrow>
          if prog = U ''ogr2ogr'' then Some GenericToInterchange
          else if prog = U ''tippecanoe'' then Some InterchangeToTileDatabase
          else if prog = U ''pmtiles'' then Some TileDatabaseToArchive
          else None)"

text \<open>
  The command of each stage of a route, for the dataset \<open>src\<close>, the working directory
  \<open>work\<close> and the bundle name: every output is a file directly in \<open>work\<close>.
\<close>

definition stage_cmd :: "stage \<Rightarrow> path \<Rightarrow> path \<Rightarrow> ustr \<Rightarrow> ustr list" where
  "stage_cmd s src work bundle_name =
     (case s of
        GenericToInterchange \<Rightarrow> ogr2ogr_cmd src (pjoin work (U ''converted.geojson''))
      | InterchangeToTileDatabase \<Rightarrow>
          tippecanoe_cmd src (pjoin work (U ''out.mbtiles'')) (safe_name bundle_name)
      | TileDatabaseToArchive \<Rightarrow>
          pmtiles_cmd src (pjoin work (safe_name bundle_name @ U ''.pmtiles'')))"

text \<open>The input of a stage is the upload for the first stage, the output of the stage before otherwise.\<close>

definition stage_output :: "stage \<Rightarrow> path \<Rightarrow> ustr \<Rightarrow> path" where
  "stage_output s work bundle_name =
     (case s of
        GenericToInterchange \<Rightarrow> pjoin work (U ''converted.geojson'')
      | InterchangeToTileDatabase \<Rightarrow> pjoin work (U ''out.mbtiles'')
      | TileDatabaseToArchive \<Rightarrow> pjoin work (safe_name bundle_name @ U ''.pmtiles''))"

fun chain :: "stage list \<Rightarrow> path \<Rightarrow> path \<Rightarrow> ustr \<Rightarrow> ustr list list" where
  "chain [] src work bundle_name = []"
| "chain (s # ss) src work bundle_name =
     stage_cmd s src work bundle_name # chain ss (stage_output s work bundle_name) work bundle_name"

definition route_plan :: "route \<Rightarrow> path \<Rightarrow> path \<Rightarrow> ustr \<Rightarrow> ustr list list" where
  "route_plan r src work bundle_name = chain (stages_of r) src work bundle_name"

text \<open>The events a call added to the trace.\<close>

definition new_events :: "'w state \<Rightarrow> 'w state \<Rightarrow> event list" where
  "new_events st st' = drop (length (trace st)) (trace st')"

fun is_stage_event :: "event \<Rightarrow> bool" where
  "is_stage_event (Exec cmd out) = (stage_of_cmd cmd \<noteq> None)"
| "is_stage_event e = False"

fun is_probe_event :: "event \<Rightarrow> bool" where
  "is_probe_event (Exec cmd out) = (cmd \<noteq> [] \<and> hd cmd = U ''ogrinfo'')"
| "is_probe_event e = False"

fun succeeded :: "exn + proc \<Rightarrow> bool" where
  "succeeded (Inr p) = (returncode p = 0)"
| "succeeded (Inl e) = False"

text \<open>
  A trace follows a plan when it runs the commands of the plan in order, each once, the
  first always, the next one only after the one before exited with status zero, and
  nothing after a command that did not.
\<close>

fun follows :: "ustr list list \<Rightarrow> event list \<Rightarrow> bool" where
  "follows [] tr = (tr = [])"
| "follows (c # cs) [] = False"
| "follows (c # cs) (Exec c' out # tr) =
     (c' = c \<and> (if succeeded out then follows cs tr else tr = []))"
| "follows (c # cs) (e # tr) = False"

section \<open>A simulated environment\<close>

text \<open>
  For concrete runs: every tool exits with the status \<open>rc\<close> gives its command and
  prints \<open>out\<close>, the unpacked directory holds \<open>tree\<close>, the report parses to \<open>report\<close>,
  floats are integers, and storage never fails.
\<close>

definition sim_env ::
  "(ustr list \<Rightarrow> int) \<Rightarrow> node list \<Rightarrow> (exn + int json) \<Rightarrow> (unit, int) env" where
  "sim_env rc tree report =
     \<lparr>subprocess_run = (\<lambda>cmd w. (Inr \<lparr>returncode = rc cmd, stdout = U ''out'', stderr = U ''err''\<rparr>, w)),
      repr_list = concat,
      json_loads = (\<lambda>s. report),
      float_of_int = Inr,
      float_of_str = (\<lambda>s. Inl (OtherException (U ''ValueError''))),
      json_dumps = (\<lambda>xs. U ''[]''),
      scandir = (\<lambda>p w. tree),
      os_mkdir = (\<lambda>p w. (Inr (), w)),
      write_upload = (\<lambda>p f w. (Inr (), w)),
      s3_upload_file = (\<lambda>local bucket key extra w. (Inr (), w)),
      db_insert = (\<lambda>row w. (Inr (), w)),
      render_json = Inr,
      shutil_rmtree = (\<lambda>p w. (Inr (), w))\<rparr>"

definition start :: "unit state" where
  "start = \<lparr>world = (), trace = []\<rparr>"

definition fails_on :: "ustr \<Rightarrow> ustr list \<Rightarrow> int" where
  "fails_on prog cmd = (if cmd \<noteq> [] \<and> hd cmd = prog then 1 else 0)"

text \<open>A report with an extent of the wrong shape at the top and two extents below.\<close>

definition demo_report :: "int json" where
  "demo_report =
     JDict [(U ''name'', JStr (U ''city'')),
            (U ''extent'', JList [JInt 1, JInt 2, JInt 3]),
            (U ''layers'',
             JList [JDict [(U ''geometryFields'',
                            JList [JDict [(U ''extent'',
                                           JList [JInt 10, JInt 20, JBool True, JInt 40])]]),
                           (U ''extent'', JList [JInt 5, JInt 6, JInt 7, JInt 8])]])]"

section \<open>Vocabulary for the statements\<close>

text \<open>The outcome of \<open>subprocess.run\<close> for a command in a state, and the state after it.\<close>

definition outcome :: "('w, 'f) env \<Rightarrow> ustr list \<Rightarrow> 'w state \<Rightarrow> exn + proc" where
  "outcome env cmd st = fst (subprocess_run env cmd (world st))"

definition after_run :: "('w, 'f) env \<Rightarrow> ustr list \<Rightarrow> 'w state \<Rightarrow> 'w state" where
  "after_run env cmd st =
     \<lparr>world = snd (subprocess_run env cmd (world st)),
      trace = trace st @ [Exec cmd (outcome env cmd st)]\<rparr>"

definition after_effect :: "('w \<Rightarrow> (exn + 'a) \<times> 'w) \<Rightarrow> event \<Rightarrow> 'w state \<Rightarrow> 'w state" where
  "after_effect f ev st = \<lparr>world = snd (f (world st)), trace = trace st @ [ev]\<rparr>"

text \<open>
  The exception \<open>run\<close> raises on the first command of a trace that did not exit with
  status zero, if there is one.
\<close>

fun failure_of :: "('w, 'f) env \<Rightarrow> event list \<Rightarrow> exn option" where
  "failure_of env [] = None"
| "failure_of env (Exec cmd (Inl e) # tr) = Some e"
| "failure_of env (Exec cmd (Inr p) # tr) =
     (if returncode p \<noteq> 0 then Some (RuntimeError (command_failed env cmd p))
      else failure_of env tr)"
| "failure_of env (e # tr) = failure_of env tr"

definition stage_events :: "event list \<Rightarrow> event list" where
  "stage_events tr = filter is_stage_event tr"

definition probe_events :: "event list \<Rightarrow> event list" where
  "probe_events tr = filter is_probe_event tr"

fun is_rmtree :: "event \<Rightarrow> bool" where
  "is_rmtree (Rmtree p) = True"
| "is_rmtree e = False"

text \<open>What a run leaves outside its working directory: objects stored and rows inserted.\<close>

fun is_kept :: "event \<Rightarrow> bool" where
  "is_kept (S3Put local key) = True"
| "is_kept (DbInsert i) = True"
| "is_kept e = False"

definition kept_outputs :: "event list \<Rightarrow> event list" where
  "kept_outputs tr = filter is_kept tr"

text \<open>
  The extent search in the words of the specification: every value under a key
  \<open>extent\<close> that is a sequence of four elements, in depth-first order, a dict's own key
  before the values of the dict; the result is the first of them.
\<close>

fun all_extents :: "'f json \<Rightarrow> 'f json list list" where
  "all_extents (JDict kvs) =
     (case own_extent kvs of Some xs \<Rightarrow> [xs] | None \<Rightarrow> [])
       @ concat (map (\<lambda>kv. all_extents (snd kv)) kvs)"
| "all_extents (JList vs) = concat (map all_extents vs)"
| "all_extents j = []"

definition first_extent :: "'f json \<Rightarrow> 'f json list option" where
  "first_extent j = (case all_extents j of [] \<Rightarrow> None | xs # rest \<Rightarrow> Some xs)"

text \<open>The list of the coerced elements, when every coercion returned.\<close>

definition all_floats :: "(exn + 'f) list \<Rightarrow> 'f list option" where
  "all_floats rs = (if list_ex isl rs then None else Some (map projr rs))"

text \<open>The value of the prober for an outcome of the introspection tool.\<close>

definition probe_value :: "('w, 'f) env \<Rightarrow> exn + proc \<Rightarrow> 'f list option" where
  "probe_value env out =
     (case out of
        Inl e \<Rightarrow> None
      | Inr p \<Rightarrow>
          if returncode p \<noteq> 0 then None
          else (case json_loads env (stdout p) of
                  Inl e \<Rightarrow> None
                | Inr j \<Rightarrow>
                    (case find_extent j of
                       None \<Rightarrow> None
                     | Some ext \<Rightarrow>
                         if length ext = 4 then all_floats (map (py_float env) ext)
                         else None)))"

text \<open>
  The argument that names the output of a tool: the destination of \<open>ogr2ogr\<close>, the
  \<open>-o\<close> of \<open>tippecanoe\<close>, the second file of \<open>pmtiles convert\<close>, the \<open>-d\<close> of
  \<open>unzip\<close>.
\<close>

definition output_arg :: "ustr list \<Rightarrow> ustr option" where
  "output_arg cmd =
     (case cmd of
        [] \<Rightarrow> None
      | prog # args \<Rightarrow>
          if prog = U ''ogr2ogr'' \<and> 5 \<le> length args then Some (args ! 4)
          else if prog = U ''tippecanoe'' \<and> 2 \<le> length args then Some (args ! 1)
          else if prog = U ''pmtiles'' \<and> 3 \<le> length args then Some (args ! 2)
          else if prog = U ''unzip'' \<and> 4 \<le> length args then Some (args ! 3)
          else None)"

fun event_cmd :: "event \<Rightarrow> ustr list" where
  "event_cmd (Exec cmd out) = cmd"
| "event_cmd e = []"

text \<open>The commands of a plan run one after the other; the first exception ends the run.\<close>

definition run_plan :: "('w, 'f) env \<Rightarrow> ustr list list \<Rightarrow> 'a \<Rightarrow> ('w, 'a) action" where
  "run_plan env cmds v = foldr (\<lambda>c k. and_then (run env c) (\<lambda>_. k)) cmds (ret v)"

text \<open>
  The end of the \<open>try\<close> body of \<open>create_bundle\<close>, after \<open>ensure_pmtiles\<close> returned:
  the archive is stored, the row inserted and the response built; and the two storage keys.
\<close>

definition store_and_record ::
  "('w, 'f) env \<Rightarrow> config \<Rightarrow> ustr \<Rightarrow> ustr \<Rightarrow> ustr \<Rightarrow> ustr \<Rightarrow> path \<Rightarrow> 'f list option
     \<Rightarrow> ('w, 'f bundle_json) action" where
  "store_and_record env cfg bundle_id bundle_name description source_key pmtiles_path bounds =
     (let pmtiles_key =
            U ''pmtiles/'' @ bundle_id @ U ''/'' @ safe_name bundle_name @ U ''.pmtiles'' in
      and_then (s3_put_file env cfg pmtiles_path pmtiles_key
                  (Some (U ''application/octet-stream''))) (\<lambda>_.
      and_then (effect (db_insert env
                  \<lparr>row_id = bundle_id, row_name = bundle_name,
                   row_description = description,
                   row_bounds = (if truthy bounds then Some (json_dumps env (the bounds))
                                 else None),
                   row_source_key = source_key, row_pmtiles_key = pmtiles_key\<rparr>)
                  (DbInsert bundle_id)) (\<lambda>_.
      lift (render_json env
             \<lparr>json_id = bundle_id, json_name = bundle_name,
              json_description = description, json_bounds = bounds,
              json_source_key = source_key, json_pmtiles_key = pmtiles_key,
              json_pmtiles_url = PUBLIC_TILES_BASE cfg @ U ''/'' @ pmtiles_key\<rparr>))))"

definition source_key_of :: "ustr \<Rightarrow> ustr \<Rightarrow> ustr" where
  "source_key_of bundle_id original_filename =
     U ''sources/'' @ bundle_id @ U ''/'' @ original_filename"

definition pmtiles_key_of :: "ustr \<Rightarrow> ustr \<Rightarrow> ustr" where
  "pmtiles_key_of bundle_id bundle_name =
     U ''pmtiles/'' @ bundle_id @ U ''/'' @ safe_name bundle_name @ U ''.pmtiles''"

text \<open>
  An event that did not end in failure: every event but an \<open>Exec\<close> whose process
  could not be started or exited with a non-zero status. The conversion commands of a trace
  that failed, and the runs of one command.
\<close>

fun exit_ok :: "event \<Rightarrow> bool" where
  "exit_ok (Exec cmd out) = succeeded out"
| "exit_ok e = True"

definition failed_stages :: "event list \<Rightarrow> event list" where
  "failed_stages tr = filter (\<lambda>e. is_stage_event e \<and> \<not> exit_ok e) tr"

definition runs_of :: "ustr list \<Rightarrow> event list \<Rightarrow> event list" where
  "runs_of cmd tr = filter (\<lambda>e. event_cmd e = cmd) tr"


text \<open>The three values \<open>create_bundle\<close> computes before it creates the working directory.\<close>

definition bundle_name_of :: "ustr \<Rightarrow> ustr" where
  "bundle_name_of name = or_else (Some (strip name)) (U ''bundle'')"

definition original_filename_of :: "upload_file \<Rightarrow> ustr" where
  "original_filename_of file = safe_name (or_else (filename file) (U ''upload''))"

definition work_of :: "config \<Rightarrow> ustr \<Rightarrow> path" where
  "work_of cfg bundle_id = pjoin (WORKDIR cfg) bundle_id"

text \<open>A configuration and an upload for the runs of the driver evaluated below.\<close>

definition demo_cfg :: config where
  "demo_cfg = \<lparr>WORKDIR = [U ''w''], S3_BUCKET = U ''b'', PUBLIC_TILES_BASE = U ''t''\<rparr>"

definition demo_file :: upload_file where
  "demo_file = \<lparr>filename = Some (U ''city.geojson''), content_type = None\<rparr>"

section \<open>Sequencing\<close>

lemma and_then_ret [simp]: "and_then (ret x) f = f x"
  by (simp add: and_then_def ret_def fun_eq_iff)

lemma and_then_assoc [simp]:
  "and_then (and_then m f) g = and_then m (\<lambda>x. and_then (f x) g)"
  by (simp add: and_then_def fun_eq_iff split: prod.splits sum.splits)

lemma and_then_lift:
  "and_then (lift r) f st = (case r of Inl e \<Rightarrow> (Inl e, st) | Inr x \<Rightarrow> f x st)"
  by (simp add: and_then_def lift_def split: sum.splits)

lemma effect_eq: "effect f ev st = (fst (f (world st)), after_effect f ev st)"
  by (simp add: effect_def after_effect_def split: prod.splits)

lemma and_then_effect:
  "and_then (effect f ev) g st =
     (case fst (f (world st)) of
        Inl e \<Rightarrow> (Inl e, after_effect f ev st)
      | Inr x \<Rightarrow> g x (after_effect f ev st))"
  by (simp add: and_then_def effect_eq split: sum.splits)

lemma run_eq:
  "run env cmd st =
     ((case outcome env cmd st of
         Inl e \<Rightarrow> Inl e
       | Inr p \<Rightarrow> if returncode p \<noteq> 0 then Inl (RuntimeError (command_failed env cmd p))
                  else Inr (stdout p)),
      after_run env cmd st)"
  by (simp add: run_def outcome_def after_run_def Let_def split: prod.splits sum.splits)

lemma and_then_run:
  "and_then (run env cmd) f st =
     (case outcome env cmd st of
        Inl e \<Rightarrow> (Inl e, after_run env cmd st)
      | Inr p \<Rightarrow>
          if returncode p \<noteq> 0
          then (Inl (RuntimeError (command_failed env cmd p)), after_run env cmd st)
          else f (stdout p) (after_run env cmd st))"
  by (simp add: and_then_def run_eq split: sum.splits)

lemma trace_after_run [simp]:
  "trace (after_run env cmd st) = trace st @ [Exec cmd (outcome env cmd st)]"
  by (simp add: after_run_def)

lemma trace_after_effect [simp]: "trace (after_effect f ev st) = trace st @ [ev]"
  by (simp add: after_effect_def)

lemma new_events_append [simp]: "trace st' = trace st @ tr \<Longrightarrow> new_events st st' = tr"
  by (simp add: new_events_def)

lemma new_events_same [simp]: "new_events st st = []"
  by (simp add: new_events_def)

section \<open>The prober\<close>

lemma length4E:
  assumes "length xs = 4"
  obtains a b c d where "xs = [a, b, c, d]"
  using assms by (auto simp: length_Suc_conv numeral_eq_Suc)

lemma all_floats4:
  "all_floats [r0, r1, r2, r3] =
     (case r0 of Inl e \<Rightarrow> None | Inr x0 \<Rightarrow>
      (case r1 of Inl e \<Rightarrow> None | Inr x1 \<Rightarrow>
      (case r2 of Inl e \<Rightarrow> None | Inr x2 \<Rightarrow>
      (case r3 of Inl e \<Rightarrow> None | Inr x3 \<Rightarrow> Some [x0, x1, x2, x3]))))"
  by (simp add: all_floats_def split: sum.splits)

lemma ogrinfo_bounds_eq:
  "ogrinfo_bounds env p st =
     (Inr (probe_value env (outcome env (ogrinfo_cmd p) st)), after_run env (ogrinfo_cmd p) st)"
proof (cases "outcome env (ogrinfo_cmd p) st")
  case (Inl e)
  then show ?thesis
    by (simp add: ogrinfo_bounds_def ogrinfo_bounds_try_def and_then_run probe_value_def)
next
  case (Inr pr)
  show ?thesis
  proof (cases "returncode pr \<noteq> 0")
    case True
    with Inr show ?thesis
      by (simp add: ogrinfo_bounds_def ogrinfo_bounds_try_def and_then_run probe_value_def)
  next
    case rc: False
    show ?thesis
    proof (cases "json_loads env (stdout pr)")
      case (Inl e)
      with Inr rc show ?thesis
        by (simp add: ogrinfo_bounds_def ogrinfo_bounds_try_def and_then_run and_then_lift
            probe_value_def)
    next
      case j: (Inr j)
      show ?thesis
      proof (cases "find_extent j")
        case None
        with Inr rc j show ?thesis
          by (simp add: ogrinfo_bounds_def ogrinfo_bounds_try_def and_then_run and_then_lift
              probe_value_def truthy_def ret_def)
      next
        case (Some ext)
        show ?thesis
        proof (cases "length ext = 4")
          case False
          with Inr rc j Some show ?thesis
            by (simp add: ogrinfo_bounds_def ogrinfo_bounds_try_def and_then_run and_then_lift
                probe_value_def truthy_def ret_def)
        next
          case True
          then obtain a b c d where ext: "ext = [a, b, c, d]"
            by (rule length4E)
          with Inr rc j Some show ?thesis
            by (simp add: ogrinfo_bounds_def ogrinfo_bounds_try_def and_then_run and_then_lift
                probe_value_def truthy_def ret_def all_floats4 split: sum.splits)
        qed
      qed
    qed
  qed
qed

lemma and_then_ogrinfo:
  "and_then (ogrinfo_bounds env p) f st =
     f (probe_value env (outcome env (ogrinfo_cmd p) st)) (after_run env (ogrinfo_cmd p) st)"
  by (simp add: and_then_def ogrinfo_bounds_eq)

section \<open>The extent search\<close>

lemma own_extent_length: "own_extent kvs = Some xs \<Longrightarrow> length xs = 4"
  by (auto simp: own_extent_def split: option.splits json.splits if_splits)

lemma all_extents_length: "xs \<in> set (all_extents j) \<Longrightarrow> length xs = 4"
  by (induction j arbitrary: xs rule: all_extents.induct)
    (auto dest: own_extent_length own_extent_length [OF sym] split: option.splits)

lemma first_extent_truthy: "truthy (first_extent j) \<longleftrightarrow> all_extents j \<noteq> []"
proof (cases "all_extents j")
  case Nil
  then show ?thesis by (simp add: first_extent_def truthy_def)
next
  case (Cons xs rest)
  then have "length xs = 4"
    using all_extents_length [of xs j] by simp
  with Cons show ?thesis by (auto simp: first_extent_def truthy_def)
qed

lemma find_extent_first:
  fixes j :: "'f json" and kvs :: "(ustr \<times> 'f json) list" and vs :: "'f json list"
  shows "find_extent j = first_extent j"
    and "find_extent_values kvs =
     (case concat (map (\<lambda>kv. all_extents (snd kv)) kvs) of [] \<Rightarrow> None | xs # rest \<Rightarrow> Some xs)"
    and "find_extent_items vs =
     (case concat (map all_extents vs) of [] \<Rightarrow> None | xs # rest \<Rightarrow> Some xs)"
proof (induction j and kvs and vs rule: find_extent_find_extent_values_find_extent_items.induct)
  case (1 kvs)
  then show ?case
    by (auto simp: first_extent_def split: option.splits)
next
  case (9 kv kvs)
  then show ?case
    using first_extent_truthy [of "snd kv"]
    by (auto simp: first_extent_def Let_def split: list.splits)
next
  case (11 v vs)
  then show ?case
    using first_extent_truthy [of v]
    by (auto simp: first_extent_def Let_def split: list.splits)
qed (simp_all add: first_extent_def)

section \<open>Plans and traces\<close>

lemma run_plan_Nil [simp]: "run_plan env [] v = ret v"
  by (simp add: run_plan_def)

lemma run_plan_Cons [simp]:
  "run_plan env (c # cs) v = and_then (run env c) (\<lambda>_. run_plan env cs v)"
  by (simp add: run_plan_def)

lemma stage_of_cmd_simps [simp]:
  "stage_of_cmd (ogr2ogr_cmd a b) = Some GenericToInterchange"
  "stage_of_cmd (tippecanoe_cmd a b l) = Some InterchangeToTileDatabase"
  "stage_of_cmd (pmtiles_cmd a b) = Some TileDatabaseToArchive"
  "stage_of_cmd (ogrinfo_cmd a) = None"
  "stage_of_cmd (unzip_cmd a b) = None"
  by (simp_all add: stage_of_cmd_def ogr2ogr_cmd_def tippecanoe_cmd_def pmtiles_cmd_def
      ogrinfo_cmd_def unzip_cmd_def)

lemma run_plan_follows:
  assumes "run_plan env cmds v st = (r, st')"
  shows "\<exists>S. trace st' = trace st @ S \<and> follows cmds S
      \<and> r = (case failure_of env S of Some e \<Rightarrow> Inl e | None \<Rightarrow> Inr v)
      \<and> set (map event_cmd S) \<subseteq> set cmds \<and> list_all (\<lambda>e. \<exists>c out. e = Exec c out) S"
  using assms
proof (induction cmds arbitrary: st)
  case Nil
  then show ?case by (simp add: ret_def)
next
  case (Cons c cs)
  show ?case
  proof (cases "succeeded (outcome env c st)")
    case False
    with Cons.prems have "r = (case failure_of env [Exec c (outcome env c st)] of
        Some e \<Rightarrow> Inl e | None \<Rightarrow> Inr v)" and "st' = after_run env c st"
      by (auto simp: and_then_run split: sum.splits if_splits)
    with False show ?thesis
      by (intro exI [of _ "[Exec c (outcome env c st)]"]) simp
  next
    case True
    then obtain p where p: "outcome env c st = Inr p" "returncode p = 0"
      by (cases "outcome env c st") auto
    with Cons.prems have "run_plan env cs v (after_run env c st) = (r, st')"
      by (simp add: and_then_run)
    from Cons.IH [OF this] obtain S where S: "trace st' = trace (after_run env c st) @ S"
      "follows cs S" "r = (case failure_of env S of Some e \<Rightarrow> Inl e | None \<Rightarrow> Inr v)"
      "set (map event_cmd S) \<subseteq> set cs" "list_all (\<lambda>e. \<exists>c out. e = Exec c out) S"
      by blast
    with p show ?thesis
      by (intro exI [of _ "Exec c (Inr p) # S"]) auto
  qed
qed

lemma ensure_non_zip_eq:
  assumes "lower (path_suffix up) \<noteq> U ''.zip''"
  shows "ensure_pmtiles env up bn work st =
     (let rt = route_of_ext (lower (path_suffix up));
          pm = pjoin work (safe_name bn @ U ''.pmtiles'') in
      if probes rt
      then run_plan env (route_plan rt up work bn)
             (pm, probe_value env (outcome env (ogrinfo_cmd up) st))
             (after_run env (ogrinfo_cmd up) st)
      else run_plan env (route_plan rt up work bn)
             (if rt = PassThrough then up else pm, None) st)"
  using assms
  by (simp add: ensure_pmtiles_def route_of_ext_def Let_def route_plan_def stage_cmd_def
      stage_output_def mbtiles_to_pmtiles_def tippecanoe_to_mbtiles_def convert_to_geojson_def
      and_then_ogrinfo del: list.map map_map)

lemma ensure_zip_eq:
  assumes "lower (path_suffix up) = U ''.zip''"
  shows "ensure_pmtiles env up bn work st =
     (case unpack env up work st of
        (Inl e, st1) \<Rightarrow> (Inl e, st1)
      | (Inr m, st1) \<Rightarrow>
          run_plan env (route_plan FromGenericOgr m work bn)
            (pjoin work (safe_name bn @ U ''.pmtiles''),
             probe_value env (outcome env (ogrinfo_cmd m) st1))
            (after_run env (ogrinfo_cmd m) st1))"
proof -
  have "ensure_pmtiles env up bn work st =
      and_then (unpack env up work) (\<lambda>m st1.
        run_plan env (route_plan FromGenericOgr m work bn)
          (pjoin work (safe_name bn @ U ''.pmtiles''),
           probe_value env (outcome env (ogrinfo_cmd m) st1))
          (after_run env (ogrinfo_cmd m) st1)) st"
    using assms
    by (simp add: ensure_pmtiles_def Let_def route_plan_def stage_cmd_def
      stage_output_def mbtiles_to_pmtiles_def tippecanoe_to_mbtiles_def convert_to_geojson_def
      and_then_ogrinfo [abs_def])
  then show ?thesis
    by (simp add: and_then_def split: prod.splits sum.splits)
qed

lemma probe_cmd_simps [simp]:
  "is_probe_event (Exec (ogrinfo_cmd a) out)"
  "\<not> is_probe_event (Exec (unzip_cmd a b) out)"
  "\<not> is_probe_event (Exec (ogr2ogr_cmd a b) out)"
  "\<not> is_probe_event (Exec (tippecanoe_cmd a b l) out)"
  "\<not> is_probe_event (Exec (pmtiles_cmd a b) out)"
  by (simp_all add: ogr2ogr_cmd_def tippecanoe_cmd_def pmtiles_cmd_def
      ogrinfo_cmd_def unzip_cmd_def)

declare is_probe_event.simps(1) [simp del]

lemma route_plan_stage_cmds:
  "c \<in> set (route_plan rt src work bn) \<Longrightarrow> stage_of_cmd c \<noteq> None \<and> \<not> is_probe_event (Exec c out)"
  by (cases rt) (auto simp: route_plan_def stage_cmd_def)

lemma route_plan_stages:
  "map stage_of_cmd (route_plan rt src work bn) = map Some (stages_of rt)"
  by (cases rt) (simp_all add: route_plan_def stage_cmd_def)

lemma plan_events_are_stages:
  assumes "set (map event_cmd S) \<subseteq> set (route_plan rt src work bn)"
    and "list_all (\<lambda>e. \<exists>c out. e = Exec c out) S"
  shows "stage_events S = S \<and> probe_events S = []"
  using assms
proof (induction S)
  case Nil
  then show ?case by (simp add: stage_events_def probe_events_def)
next
  case (Cons e S)
  then obtain c out where e: "e = Exec c out" by auto
  with Cons.prems have "c \<in> set (route_plan rt src work bn)" by simp
  from route_plan_stage_cmds [OF this, of out] Cons e show ?case
    by (simp add: stage_events_def probe_events_def)
qed

lemma ensure_non_zip_trace:
  assumes "lower (path_suffix up) \<noteq> U ''.zip''"
    and "ensure_pmtiles env up bn work st = (r, st')"
  shows "\<exists>S. trace st' = trace st
        @ (if probes (route_of_ext (lower (path_suffix up)))
           then [Exec (ogrinfo_cmd up) (outcome env (ogrinfo_cmd up) st)] else []) @ S
      \<and> follows (route_plan (route_of_ext (lower (path_suffix up))) up work bn) S
      \<and> stage_events S = S \<and> probe_events S = []
      \<and> r = (case failure_of env S of
               Some e \<Rightarrow> Inl e
             | None \<Rightarrow>
                 Inr (if route_of_ext (lower (path_suffix up)) = PassThrough then up
                      else pjoin work (safe_name bn @ U ''.pmtiles''),
                      if probes (route_of_ext (lower (path_suffix up)))
                      then probe_value env (outcome env (ogrinfo_cmd up) st) else None))"
proof -
  let ?rt = "route_of_ext (lower (path_suffix up))"
  let ?pm = "pjoin work (safe_name bn @ U ''.pmtiles'')"
  show ?thesis
  proof (cases "probes ?rt")
    case True
    with assms have "run_plan env (route_plan ?rt up work bn)
        (?pm, probe_value env (outcome env (ogrinfo_cmd up) st))
        (after_run env (ogrinfo_cmd up) st) = (r, st')"
      by (simp add: ensure_non_zip_eq Let_def del: list.map map_map)
    from run_plan_follows [OF this] obtain S where
      "trace st' = trace (after_run env (ogrinfo_cmd up) st) @ S"
      "follows (route_plan ?rt up work bn) S"
      "r = (case failure_of env S of Some e \<Rightarrow> Inl e
             | None \<Rightarrow> Inr (?pm, probe_value env (outcome env (ogrinfo_cmd up) st)))"
      "set (map event_cmd S) \<subseteq> set (route_plan ?rt up work bn)"
      "list_all (\<lambda>e. \<exists>c out. e = Exec c out) S"
      by blast
    with True plan_events_are_stages [of S ?rt up work bn] show ?thesis
      by (intro exI [of _ S]) (auto simp del: list.map map_map)
  next
    case False
    with assms have "run_plan env (route_plan ?rt up work bn)
        (if ?rt = PassThrough then up else ?pm, None) st = (r, st')"
      by (simp add: ensure_non_zip_eq Let_def del: list.map map_map)
    from run_plan_follows [OF this] obtain S where
      "trace st' = trace st @ S"
      "follows (route_plan ?rt up work bn) S"
      "r = (case failure_of env S of Some e \<Rightarrow> Inl e
             | None \<Rightarrow> Inr (if ?rt = PassThrough then up else ?pm, None))"
      "set (map event_cmd S) \<subseteq> set (route_plan ?rt up work bn)"
      "list_all (\<lambda>e. \<exists>c out. e = Exec c out) S"
      by blast
    with False plan_events_are_stages [of S ?rt up work bn] show ?thesis
      by (intro exI [of _ S]) (auto simp del: list.map map_map)
  qed
qed

lemma unpack_eq:
  "unpack env up work st =
     (let unz = pjoin work (U ''unzipped'');
          st1 = after_effect (os_mkdir env unz) (Mkdir unz) st;
          st2 = after_run env (unzip_cmd up unz) st1 in
      case fst (os_mkdir env unz (world st)) of
        Inl e \<Rightarrow> (Inl e, st1)
      | Inr u \<Rightarrow>
          (case outcome env (unzip_cmd up unz) st1 of
             Inl e \<Rightarrow> (Inl e, st2)
           | Inr p \<Rightarrow>
               if returncode p \<noteq> 0
               then (Inl (RuntimeError (command_failed env (unzip_cmd up unz) p)), st2)
               else (select_member unz (scandir env unz (world st2)), st2)))"
  by (simp add: unpack_def Let_def and_then_effect and_then_run lift_def
      split: sum.splits del: list.map map_map)

lemma unpack_trace:
  assumes "unpack env up work st = (ru, stu)"
  shows "\<exists>Us. trace stu = trace st @ Us \<and> stage_events Us = [] \<and> probe_events Us = []
      \<and> kept_outputs Us = [] \<and> filter is_rmtree Us = []"
  using assms
  by (auto simp: unpack_eq Let_def stage_events_def probe_events_def kept_outputs_def
      split: sum.splits if_splits simp del: list.map map_map)

lemma ensure_zip_trace:
  assumes "lower (path_suffix up) = U ''.zip''"
    and "ensure_pmtiles env up bn work st = (r, st')"
    and "unpack env up work st = (ru, stu)"
  shows "case ru of
      Inl e \<Rightarrow> r = Inl e \<and> st' = stu
    | Inr m \<Rightarrow>
        (\<exists>S. trace st' = trace stu @ Exec (ogrinfo_cmd m) (outcome env (ogrinfo_cmd m) stu) # S
          \<and> follows (route_plan FromGenericOgr m work bn) S
          \<and> stage_events S = S \<and> probe_events S = []
          \<and> r = (case failure_of env S of
                   Some e \<Rightarrow> Inl e
                 | None \<Rightarrow> Inr (pjoin work (safe_name bn @ U ''.pmtiles''),
                              probe_value env (outcome env (ogrinfo_cmd m) stu))))"
proof (cases ru)
  case (Inl e)
  with assms show ?thesis
    by (simp add: ensure_zip_eq del: list.map map_map)
next
  case (Inr m)
  let ?pm = "pjoin work (safe_name bn @ U ''.pmtiles'')"
  from Inr assms have "run_plan env (route_plan FromGenericOgr m work bn)
      (?pm, probe_value env (outcome env (ogrinfo_cmd m) stu))
      (after_run env (ogrinfo_cmd m) stu) = (r, st')"
    by (simp add: ensure_zip_eq del: list.map map_map)
  from run_plan_follows [OF this] obtain S where
    "trace st' = trace (after_run env (ogrinfo_cmd m) stu) @ S"
    "follows (route_plan FromGenericOgr m work bn) S"
    "r = (case failure_of env S of Some e \<Rightarrow> Inl e
           | None \<Rightarrow> Inr (?pm, probe_value env (outcome env (ogrinfo_cmd m) stu)))"
    "set (map event_cmd S) \<subseteq> set (route_plan FromGenericOgr m work bn)"
    "list_all (\<lambda>e. \<exists>c out. e = Exec c out) S"
    by blast
  with Inr plan_events_are_stages [of S FromGenericOgr m work bn] show ?thesis
    by (simp del: list.map map_map)
qed

lemma follows_complete:
  "follows cmds S \<Longrightarrow> failure_of env S = None \<Longrightarrow> map event_cmd S = cmds"
proof (induction cmds S rule: follows.induct)
  case (3 c cs c' out tr)
  then show ?case
    by (cases out) (auto split: if_splits)
qed auto

lemma stage_events_append [simp]: "stage_events (xs @ ys) = stage_events xs @ stage_events ys"
  by (simp add: stage_events_def)

lemma probe_events_append [simp]: "probe_events (xs @ ys) = probe_events xs @ probe_events ys"
  by (simp add: probe_events_def)

lemma stage_events_probe [simp]: "stage_events [Exec (ogrinfo_cmd p) out] = []"
  by (simp add: stage_events_def)

lemma probe_events_probe [simp]:
  "probe_events [Exec (ogrinfo_cmd p) out] = [Exec (ogrinfo_cmd p) out]"
  by (simp add: probe_events_def)

lemma stage_events_Nil [simp]: "stage_events [] = []"
  by (simp add: stage_events_def)

lemma probe_events_Nil [simp]: "probe_events [] = []"
  by (simp add: probe_events_def)

lemmas eval_text = lower_def path_suffix_def path_name_def safe_name_def strip_def
  sub_disallowed_def is_space_def is_allowed_def pjoin_def path_str_def

lemmas eval_run = and_then_run and_then_effect and_then_lift outcome_def after_run_def
  after_effect_def ret_def new_events_def stage_events_def probe_events_def
  route_of_ext_def route_plan_def stage_cmd_def stage_output_def

lemma stage_events_Cons [simp]:
  "stage_events (e # tr) = (if is_stage_event e then e # stage_events tr else stage_events tr)"
  by (simp add: stage_events_def)

lemma probe_events_Cons [simp]:
  "probe_events (e # tr) = (if is_probe_event e then e # probe_events tr else probe_events tr)"
  by (simp add: probe_events_def)

lemma ensure_zip_events:
  assumes "lower (path_suffix up) = U ''.zip''"
    and "ensure_pmtiles env up bn work st = (r, st')"
    and "unpack env up work st = (ru, stu)"
  shows "case ru of
      Inl e \<Rightarrow> r = Inl e \<and> stage_events (new_events st st') = []
        \<and> probe_events (new_events st st') = []
    | Inr m \<Rightarrow>
        follows (route_plan FromGenericOgr m work bn) (stage_events (new_events st st'))
        \<and> probe_events (new_events st st')
            = [Exec (ogrinfo_cmd m) (outcome env (ogrinfo_cmd m) stu)]
        \<and> r = (case failure_of env (stage_events (new_events st st')) of
                 Some e \<Rightarrow> Inl e
               | None \<Rightarrow> Inr (pjoin work (safe_name bn @ U ''.pmtiles''),
                            probe_value env (outcome env (ogrinfo_cmd m) stu)))"
proof -
  from unpack_trace [OF assms(3)] obtain Us where Us: "trace stu = trace st @ Us"
    "stage_events Us = []" "probe_events Us = []"
    by blast
  show ?thesis
  proof (cases ru)
    case (Inl e)
    with ensure_zip_trace [OF assms] Us show ?thesis
      by simp
  next
    case (Inr m)
    with ensure_zip_trace [OF assms] obtain S where S:
      "trace st' = trace stu @ Exec (ogrinfo_cmd m) (outcome env (ogrinfo_cmd m) stu) # S"
      "follows (route_plan FromGenericOgr m work bn) S"
      "stage_events S = S" "probe_events S = []"
      "r = (case failure_of env S of
                   Some e \<Rightarrow> Inl e
                 | None \<Rightarrow> Inr (pjoin work (safe_name bn @ U ''.pmtiles''),
                              probe_value env (outcome env (ogrinfo_cmd m) stu)))"
      by auto
    from S(1) Us(1) have "new_events st st'
        = Us @ [Exec (ogrinfo_cmd m) (outcome env (ogrinfo_cmd m) stu)] @ S"
      by simp
    with Us S Inr show ?thesis
      by (simp del: list.map map_map)
  qed
qed

lemmas eval_unpack = unpack_eq select_member_def rglob_def matching_def glob_shp_def
  glob_any_def next_or_none_def Let_def

lemma demo_unpack:
  "unpack (sim_env (\<lambda>c. 0) [File (U ''a.geojson'')] (Inr JNull)) [U ''w'', U ''city.zip'']
      [U ''w''] start
   = (Inr [U ''w'', U ''unzipped'', U ''a.geojson''],
      \<lparr>world = (),
       trace = [Mkdir [U ''w'', U ''unzipped''],
                Exec (unzip_cmd [U ''w'', U ''city.zip''] [U ''w'', U ''unzipped''])
                  (Inr \<lparr>returncode = 0, stdout = U ''out'', stderr = U ''err''\<rparr>)]\<rparr>)"
  by (simp add: eval_unpack eval_text eval_run sim_env_def start_def)

section \<open>The driver, step by step\<close>

lemma s3_put_file_eq:
  "\<exists>f. s3_put_file env cfg local key ctype = effect f (S3Put (path_str local) key)"
  by (auto simp: s3_put_file_def Let_def)

lemma create_bundle_try_eq:
  "create_bundle_try env cfg bundle_id bundle_name description original_filename file work =
     and_then (effect (write_upload env (pjoin work original_filename) file)
                 (SaveUpload (pjoin work original_filename))) (\<lambda>_.
     and_then (s3_put_file env cfg (pjoin work original_filename)
                 (source_key_of bundle_id original_filename)
                 (Some (or_else (content_type file) (U ''application/octet-stream'')))) (\<lambda>_.
     and_then (ensure_pmtiles env (pjoin work original_filename) bundle_name work)
       (\<lambda>(pmtiles_path, bounds).
          store_and_record env cfg bundle_id bundle_name description
            (source_key_of bundle_id original_filename) pmtiles_path bounds)))"
  by (simp add: create_bundle_try_def store_and_record_def source_key_of_def Let_def
      del: list.map map_map)

lemma failed_stages_append [simp]:
  "failed_stages (xs @ ys) = failed_stages xs @ failed_stages ys"
  by (simp add: failed_stages_def)

lemma runs_of_append [simp]: "runs_of cmd (xs @ ys) = runs_of cmd xs @ runs_of cmd ys"
  by (simp add: runs_of_def)

lemma kept_outputs_append [simp]: "kept_outputs (xs @ ys) = kept_outputs xs @ kept_outputs ys"
  by (simp add: kept_outputs_def)

lemma distinct_route_plan: "distinct (route_plan rt src work bn)"
  by (cases rt)
    (auto simp: route_plan_def stage_cmd_def ogr2ogr_cmd_def tippecanoe_cmd_def pmtiles_cmd_def)

lemma follows_cmds: "follows cmds S \<Longrightarrow> e \<in> set S \<Longrightarrow> event_cmd e \<in> set cmds"
proof (induction cmds S rule: follows.induct)
  case (3 c cs c' out tr)
  then show ?case by (auto split: if_splits)
qed auto

lemma follows_failed:
  assumes "follows cmds S" and "distinct cmds" and "Exec cmd (Inr p) \<in> set S"
    and "returncode p \<noteq> 0"
  shows "failure_of env S = Some (RuntimeError (command_failed env cmd p))
    \<and> last S = Exec cmd (Inr p)
    \<and> filter (\<lambda>e. \<not> exit_ok e) S = [Exec cmd (Inr p)]
    \<and> runs_of cmd S = [Exec cmd (Inr p)]"
  using assms
proof (induction cmds S rule: follows.induct)
  case (3 c cs c' out tr)
  show ?case
  proof (cases "succeeded out")
    case False
    with 3 show ?thesis
      by (cases out) (auto simp: runs_of_def split: if_splits)
  next
    case True
    with "3.prems" have in_tr: "Exec cmd (Inr p) \<in> set tr" and tr: "follows cs tr"
      and c: "c' = c" and d: "distinct cs" "c \<notin> set cs"
      by auto
    from follows_cmds [OF tr in_tr] d have "cmd \<noteq> c" by auto
    moreover from in_tr have "tr \<noteq> []" by auto
    moreover obtain q where "out = Inr q" "returncode q = 0"
      using True by (cases out) auto
    ultimately show ?thesis
      using "3.IH" [OF True tr d(1) in_tr "3.prems"(4)] c
      by (auto simp: runs_of_def)
  qed
qed auto

lemma stage_events_id:
  assumes "stage_events S = S"
  shows "kept_outputs S = [] \<and> filter is_rmtree S = [] \<and> (\<forall>e\<in>set S. is_stage_event e)"
proof -
  from assms have all: "\<forall>e\<in>set S. is_stage_event e"
    by (simp add: stage_events_def filter_id_conv)
  have "\<not> is_kept e \<and> \<not> is_rmtree e" if "is_stage_event e" for e
    using that by (cases e) auto
  with all show ?thesis
    by (auto simp: kept_outputs_def filter_empty_conv)
qed

lemma no_stage_events:
  assumes "stage_events H = []"
  shows "failed_stages H = [] \<and> (stage_of_cmd cmd \<noteq> None \<longrightarrow> runs_of cmd H = [])
    \<and> (\<forall>e\<in>set H. \<not> is_stage_event e)"
proof -
  from assms have none: "\<forall>e\<in>set H. \<not> is_stage_event e"
    by (simp add: stage_events_def filter_empty_conv)
  have "is_stage_event e" if "event_cmd e = cmd" "stage_of_cmd cmd \<noteq> None" for e
    using that by (cases e) (auto simp: stage_of_cmd_def)
  with none show ?thesis
    by (auto simp: failed_stages_def runs_of_def filter_empty_conv)
qed

text \<open>The trace of the pipeline core, for every extension.\<close>

lemma ensure_shape:
  assumes "ensure_pmtiles env up bn work st = (r, st')"
  shows "\<exists>H S plan v. trace st' = trace st @ H @ S
      \<and> stage_events H = [] \<and> stage_events S = S
      \<and> kept_outputs H = [] \<and> filter is_rmtree H = []
      \<and> distinct plan
      \<and> (S \<noteq> [] \<longrightarrow> follows plan S
            \<and> r = (case failure_of env S of Some e \<Rightarrow> Inl e | None \<Rightarrow> Inr v))"
proof (cases "lower (path_suffix up) = U ''.zip''")
  case False
  let ?rt = "route_of_ext (lower (path_suffix up))"
  let ?H = "if probes ?rt
           then [Exec (ogrinfo_cmd up) (outcome env (ogrinfo_cmd up) st)] else []"
  from ensure_non_zip_trace [OF False assms] obtain S where S:
    "trace st' = trace st @ ?H @ S"
    "follows (route_plan ?rt up work bn) S" "stage_events S = S"
    "r = (case failure_of env S of
               Some e \<Rightarrow> Inl e
             | None \<Rightarrow>
                 Inr (if ?rt = PassThrough then up
                      else pjoin work (safe_name bn @ U ''.pmtiles''),
                      if probes ?rt
                      then probe_value env (outcome env (ogrinfo_cmd up) st) else None))"
    by blast
  have "stage_events ?H = [] \<and> kept_outputs ?H = [] \<and> filter is_rmtree ?H = []"
    by (simp add: kept_outputs_def)
  with S distinct_route_plan [of ?rt up work bn] show ?thesis
    by blast
next
  case True
  obtain ru stu where u: "unpack env up work st = (ru, stu)"
    by (cases "unpack env up work st")
  from unpack_trace [OF u] obtain Us where Us: "trace stu = trace st @ Us"
    "stage_events Us = []" "kept_outputs Us = []" "filter is_rmtree Us = []"
    by blast
  show ?thesis
  proof (cases ru)
    case (Inl e)
    with ensure_zip_trace [OF True assms u] Us have "trace st' = trace st @ Us @ []"
      by simp
    with Us show ?thesis
      by (intro exI [of _ Us] exI [of _ "[]"]) auto
  next
    case (Inr m)
    let ?H = "Us @ [Exec (ogrinfo_cmd m) (outcome env (ogrinfo_cmd m) stu)]"
    from Inr ensure_zip_trace [OF True assms u] obtain S where S:
      "trace st' = trace stu @ Exec (ogrinfo_cmd m) (outcome env (ogrinfo_cmd m) stu) # S"
      "follows (route_plan FromGenericOgr m work bn) S" "stage_events S = S"
      "r = (case failure_of env S of
                   Some e \<Rightarrow> Inl e
                 | None \<Rightarrow> Inr (pjoin work (safe_name bn @ U ''.pmtiles''),
                              probe_value env (outcome env (ogrinfo_cmd m) stu)))"
      by auto
    from S(1) Us have "trace st' = trace st @ ?H @ S"
      "stage_events ?H = [] \<and> kept_outputs ?H = [] \<and> filter is_rmtree ?H = []"
      by (simp_all add: kept_outputs_def)
    with S distinct_route_plan [of FromGenericOgr m work bn] show ?thesis
      by blast
  qed
qed

lemma ensure_frame:
  assumes "ensure_pmtiles env up bn work st = (r, st')"
  shows "trace st' = trace st @ new_events st st'
    \<and> kept_outputs (new_events st st') = []
    \<and> filter is_rmtree (new_events st st') = []"
proof -
  from ensure_shape [OF assms] obtain H S where
    "trace st' = trace st @ H @ S" "stage_events S = S"
    "kept_outputs H = []" "filter is_rmtree H = []"
    by blast
  with stage_events_id [of S] show ?thesis
    by simp
qed

lemma ensure_failed_stage:
  assumes "ensure_pmtiles env up bn work st = (r, st')"
    and "Exec cmd (Inr p) \<in> set (new_events st st')"
    and "stage_of_cmd cmd \<noteq> None" and "returncode p \<noteq> 0"
  shows "r = Inl (RuntimeError (command_failed env cmd p))
    \<and> last (new_events st st') = Exec cmd (Inr p)
    \<and> failed_stages (new_events st st') = [Exec cmd (Inr p)]
    \<and> runs_of cmd (new_events st st') = [Exec cmd (Inr p)]"
proof -
  from ensure_shape [OF assms(1)] obtain H S plan v where sh:
    "trace st' = trace st @ H @ S" "stage_events H = []" "stage_events S = S"
    "distinct plan"
    "S \<noteq> [] \<longrightarrow> follows plan S
        \<and> r = (case failure_of env S of Some e \<Rightarrow> Inl e | None \<Rightarrow> Inr v)"
    by blast
  from sh(1) have ne: "new_events st st' = H @ S" by simp
  from no_stage_events [OF sh(2), of cmd] assms(3) have H:
    "failed_stages H = []" "runs_of cmd H = []" "\<forall>e\<in>set H. \<not> is_stage_event e"
    by auto
  from assms(2,3) ne H(3) have inS: "Exec cmd (Inr p) \<in> set S"
    by auto
  then have "S \<noteq> []" by auto
  with sh(5) have fol: "follows plan S"
    and r: "r = (case failure_of env S of Some e \<Rightarrow> Inl e | None \<Rightarrow> Inr v)"
    by auto
  from follows_failed [OF fol sh(4) inS assms(4), of env] have F:
    "failure_of env S = Some (RuntimeError (command_failed env cmd p))"
    "last S = Exec cmd (Inr p)"
    "filter (\<lambda>e. \<not> exit_ok e) S = [Exec cmd (Inr p)]"
    "runs_of cmd S = [Exec cmd (Inr p)]"
    by auto
  from stage_events_id [OF sh(3)] have "failed_stages S = filter (\<lambda>e. \<not> exit_ok e) S"
    unfolding failed_stages_def by (intro filter_cong) auto
  with F H ne r \<open>S \<noteq> []\<close> show ?thesis
    by simp
qed

lemma store_and_record_extends:
  assumes "store_and_record env cfg bundle_id bundle_name description source_key pm b st
      = (r, st')"
  shows "trace st' = trace st @ [S3Put (path_str pm) (pmtiles_key_of bundle_id bundle_name)]
      \<or> trace st' = trace st @ [S3Put (path_str pm) (pmtiles_key_of bundle_id bundle_name),
                              DbInsert bundle_id]"
proof -
  obtain f where f: "s3_put_file env cfg pm (pmtiles_key_of bundle_id bundle_name)
      (Some (U ''application/octet-stream''))
      = effect f (S3Put (path_str pm) (pmtiles_key_of bundle_id bundle_name))"
    using s3_put_file_eq by blast
  show ?thesis
    using assms unfolding store_and_record_def Let_def pmtiles_key_of_def [symmetric] f
    by (auto simp: and_then_effect lift_def split: sum.splits)
qed

lemma create_bundle_try_shape:
  assumes "create_bundle_try env cfg bid bn desc ofn file work st = (rb, stb)"
  shows "\<exists>B. trace stb = trace st @ B \<and>
     (((\<exists>e. rb = Inl e) \<and>
         (B = [SaveUpload (pjoin work ofn)]
          \<or> B = [SaveUpload (pjoin work ofn),
                  S3Put (path_str (pjoin work ofn)) (source_key_of bid ofn)]))
      \<or> (\<exists>st2 re st3 T. ensure_pmtiles env (pjoin work ofn) bn work st2 = (re, st3)
            \<and> B = SaveUpload (pjoin work ofn)
                  # S3Put (path_str (pjoin work ofn)) (source_key_of bid ofn)
                  # new_events st2 st3 @ T
            \<and> (case re of
                  Inl e \<Rightarrow> rb = Inl e \<and> T = []
                | Inr x \<Rightarrow>
                    T = [S3Put (path_str (fst x)) (pmtiles_key_of bid bn)]
                    \<or> T = [S3Put (path_str (fst x)) (pmtiles_key_of bid bn), DbInsert bid])))"
proof -
  let ?up = "pjoin work ofn"
  let ?src = "S3Put (path_str ?up) (source_key_of bid ofn)"
  obtain f where f: "s3_put_file env cfg ?up (source_key_of bid ofn)
      (Some (or_else (content_type file) (U ''application/octet-stream'')))
      = effect f ?src"
    using s3_put_file_eq by blast
  let ?st1 = "after_effect (write_upload env ?up file) (SaveUpload ?up) st"
  let ?st2 = "after_effect f ?src ?st1"
  show ?thesis
  proof (cases "fst (write_upload env ?up file (world st))")
    case (Inl e)
    with assms have "rb = Inl e" "stb = ?st1"
      by (simp_all add: create_bundle_try_eq and_then_effect del: list.map map_map)
    then show ?thesis by simp
  next
    case w: (Inr u)
    show ?thesis
    proof (cases "fst (f (world ?st1))")
      case (Inl e)
      with assms w have "rb = Inl e" "stb = ?st2"
        by (simp_all add: create_bundle_try_eq f and_then_effect del: list.map map_map)
      then show ?thesis by simp
    next
      case s: (Inr u')
      obtain re st3 where en: "ensure_pmtiles env ?up bn work ?st2 = (re, st3)"
        by (cases "ensure_pmtiles env ?up bn work ?st2")
      define E where "E = new_events ?st2 st3"
      have tr3: "trace st3 = trace st @ SaveUpload ?up # ?src # E"
        using ensure_frame [OF en, THEN conjunct1, folded E_def] by simp
      show ?thesis
      proof (cases re)
        case (Inl e)
        with assms w s en have "rb = Inl e" "stb = st3"
          by (simp_all add: create_bundle_try_eq f and_then_def effect_eq
              del: list.map map_map)
        with tr3 have 1: "trace stb = trace st @ SaveUpload ?up # ?src # E @ []"
          by simp
        have 2: "\<exists>st2 re st3 T. ensure_pmtiles env ?up bn work st2 = (re, st3)
            \<and> SaveUpload ?up # ?src # E @ [] = SaveUpload ?up # ?src # new_events st2 st3 @ T
            \<and> (case re of
                  Inl e \<Rightarrow> rb = Inl e \<and> T = []
                | Inr x \<Rightarrow>
                    T = [S3Put (path_str (fst x)) (pmtiles_key_of bid bn)]
                    \<or> T = [S3Put (path_str (fst x)) (pmtiles_key_of bid bn), DbInsert bid])"
          using en Inl \<open>rb = Inl e\<close>
          by (intro exI [of _ ?st2] exI [of _ re] exI [of _ st3] exI [of _ "[]"])
            (simp add: E_def del: list.map map_map)
        from 1 2 show ?thesis
          by blast
      next
        case (Inr x)
        with assms w s en have "store_and_record env cfg bid bn desc (source_key_of bid ofn)
            (fst x) (snd x) st3 = (rb, stb)"
          by (simp add: create_bundle_try_eq f and_then_def effect_eq
              split: prod.splits del: list.map map_map)
        from store_and_record_extends [OF this] obtain T where T:
          "trace stb = trace st3 @ T"
          "T = [S3Put (path_str (fst x)) (pmtiles_key_of bid bn)]
           \<or> T = [S3Put (path_str (fst x)) (pmtiles_key_of bid bn), DbInsert bid]"
          by blast
        from T(1) tr3 have 1: "trace stb = trace st @ SaveUpload ?up # ?src # E @ T"
          by simp
        have 2: "\<exists>st2 re st3 T'. ensure_pmtiles env ?up bn work st2 = (re, st3)
            \<and> SaveUpload ?up # ?src # E @ T = SaveUpload ?up # ?src # new_events st2 st3 @ T'
            \<and> (case re of
                  Inl e \<Rightarrow> rb = Inl e \<and> T' = []
                | Inr x \<Rightarrow>
                    T' = [S3Put (path_str (fst x)) (pmtiles_key_of bid bn)]
                    \<or> T' = [S3Put (path_str (fst x)) (pmtiles_key_of bid bn), DbInsert bid])"
          using en Inr T(2)
          by (intro exI [of _ ?st2] exI [of _ re] exI [of _ st3] exI [of _ T])
            (simp add: E_def del: list.map map_map)
        from 1 2 show ?thesis
          by blast
      qed
    qed
  qed
qed

section \<open>The name sanitizer\<close>

lemma allowed_not_space: "is_allowed c \<Longrightarrow> \<not> is_space c"
  by (auto simp: is_allowed_def is_space_def)

lemma dropWhile_space_allowed: "list_all is_allowed s \<Longrightarrow> dropWhile is_space s = s"
  by (cases s) (auto simp: allowed_not_space)

lemma strip_allowed: "list_all is_allowed s \<Longrightarrow> strip s = s"
  by (simp add: strip_def dropWhile_space_allowed)

lemma sub_spaces_allowed: "list_all is_allowed s \<Longrightarrow> sub_spaces s = s"
  by (induction s) (auto simp: allowed_not_space)

lemma sub_disallowed_allowed: "list_all is_allowed s \<Longrightarrow> sub_disallowed s = s"
  by (induction s) (auto simp: sub_disallowed_def)

lemma bundle_token: "matches_token (U ''bundle'')"
  by (simp add: matches_token_def is_allowed_def)

lemma safe_name_token: "matches_token (safe_name s)"
proof (cases "sub_disallowed (sub_spaces (strip s)) = []")
  case True
  then show ?thesis
    using bundle_token by (simp add: safe_name_def)
next
  case False
  let ?t = "sub_disallowed (sub_spaces (strip s))"
  have "list_all is_allowed (take 120 ?t)"
    by (auto simp: sub_disallowed_def list_all_iff dest: in_set_takeD)
  moreover have "take 120 ?t \<noteq> []"
    using False by simp
  ultimately show ?thesis
    using False by (simp add: safe_name_def matches_token_def Suc_le_eq)
qed

lemma safe_name_fixes_tokens: "matches_token s \<Longrightarrow> safe_name s = s"
  by (auto simp: matches_token_def safe_name_def strip_allowed sub_spaces_allowed
      sub_disallowed_allowed)

text \<open>
  Claim C7. \<open>safe_name\<close> is a total function: for every input string its result is a
  full match of \<open>^[A-Za-z0-9._-]{1,120}$\<close> (non-empty, at most 120 characters, only
  letters, digits, dot, underscore and hyphen); it is the literal \<open>bundle\<close> when
  nothing is left after cleaning; and sanitizing twice is the same as sanitizing once.
\<close>

theorem safe_name_token_idempotent:
  "matches_token (safe_name s)
   \<and> (sub_disallowed (sub_spaces (strip s)) = [] \<longrightarrow> safe_name s = U ''bundle'')
   \<and> safe_name (safe_name s) = safe_name s"
  using safe_name_token [of s] safe_name_fixes_tokens [of "safe_name s"]
  by (simp add: safe_name_def)

theorem safe_name_token_idempotent_witness:
  "matches_token (safe_name (U ''  !?  ''))
   \<and> sub_disallowed (sub_spaces (strip (U ''  !?  ''))) = []
   \<and> safe_name (U ''  !?  '') = U ''bundle''
   \<and> safe_name (safe_name (U ''  !?  '')) = safe_name (U ''  !?  '')"
  using safe_name_token_idempotent [of "U ''  !?  ''"]
  by (simp add: safe_name_def matches_token_def sub_disallowed_def strip_def is_space_def
      is_allowed_def)

section \<open>Routing\<close>

text \<open>
  Claim C1. The route of an upload that is not a \<open>.zip\<close> is a function of the
  lower-cased extension alone, for every environment and every state of the world: the
  conversion commands of the run follow the plan of that route (in order, each once, the
  next only after the one before exited with zero); the plan consists of the stages the
  specification lists for the route; \<open>.pmtiles\<close> has no effect at all and returns the
  upload path with no bounds; and a run that returns has run the whole plan.
\<close>

theorem route_chosen_by_extension:
  assumes "lower (path_suffix upload_path) \<noteq> U ''.zip''"
    and "ensure_pmtiles env upload_path bundle_name work st = (r, st')"
  shows "follows (route_plan (route_of_ext (lower (path_suffix upload_path)))
             upload_path work bundle_name) (stage_events (new_events st st'))
    \<and> map stage_of_cmd (route_plan (route_of_ext (lower (path_suffix upload_path)))
             upload_path work bundle_name)
        = map Some (stages_of (route_of_ext (lower (path_suffix upload_path))))
    \<and> (lower (path_suffix upload_path) = U ''.pmtiles'' \<longrightarrow>
          r = Inr (upload_path, None) \<and> st' = st)
    \<and> ((\<exists>x. r = Inr x) \<longrightarrow>
          map event_cmd (stage_events (new_events st st'))
            = route_plan (route_of_ext (lower (path_suffix upload_path)))
                upload_path work bundle_name)"
proof -
  let ?rt = "route_of_ext (lower (path_suffix upload_path))"
  let ?plan = "route_plan ?rt upload_path work bundle_name"
  from ensure_non_zip_trace [OF assms] obtain S where S:
    "trace st' = trace st
        @ (if probes ?rt
           then [Exec (ogrinfo_cmd upload_path) (outcome env (ogrinfo_cmd upload_path) st)]
           else []) @ S"
    "follows ?plan S" "stage_events S = S"
    "r = (case failure_of env S of
               Some e \<Rightarrow> Inl e
             | None \<Rightarrow>
                 Inr (if ?rt = PassThrough then upload_path
                      else pjoin work (safe_name bundle_name @ U ''.pmtiles''),
                      if probes ?rt
                      then probe_value env (outcome env (ogrinfo_cmd upload_path) st)
                      else None))"
    by blast
  from S(1,3) have ev: "stage_events (new_events st st') = S"
    by (simp del: list.map map_map)
  have "map event_cmd S = ?plan" if "\<exists>x. r = Inr x"
    using that S(4) follows_complete [OF S(2), of env] by (auto split: option.splits)
  moreover have "r = Inr (upload_path, None) \<and> st' = st"
    if "lower (path_suffix upload_path) = U ''.pmtiles''"
    using that assms(2) by (simp add: ensure_pmtiles_def ret_def)
  ultimately show ?thesis
    using S(2) ev route_plan_stages [of ?rt upload_path work bundle_name]
    by (simp del: list.map map_map)
qed

theorem route_chosen_by_extension_witness:
  "lower (path_suffix [U ''w'', U ''parks.GeoJSON'']) \<noteq> U ''.zip''
   \<and> route_of_ext (lower (path_suffix [U ''w'', U ''parks.GeoJSON''])) = FromInterchange
   \<and> follows (route_plan FromInterchange [U ''w'', U ''parks.GeoJSON''] [U ''w''] (U ''my parks''))
        (stage_events (new_events start (snd (ensure_pmtiles (sim_env (\<lambda>c. 0) [] (Inr JNull))
           [U ''w'', U ''parks.GeoJSON''] (U ''my parks'') [U ''w''] start))))
   \<and> map stage_of_cmd (route_plan FromInterchange [U ''w'', U ''parks.GeoJSON''] [U ''w'']
          (U ''my parks'')) = [Some InterchangeToTileDatabase, Some TileDatabaseToArchive]
   \<and> fst (ensure_pmtiles (sim_env (\<lambda>c. 0) [] (Inr JNull))
           [U ''w'', U ''parks.GeoJSON''] (U ''my parks'') [U ''w''] start)
        = Inr ([U ''w'', U ''my-parks.pmtiles''], None)
   \<and> map event_cmd (stage_events (new_events start (snd (ensure_pmtiles
           (sim_env (\<lambda>c. 0) [] (Inr JNull)) [U ''w'', U ''parks.GeoJSON''] (U ''my parks'')
           [U ''w''] start))))
        = [tippecanoe_cmd [U ''w'', U ''parks.GeoJSON''] [U ''w'', U ''out.mbtiles'']
             (U ''my-parks''),
           pmtiles_cmd [U ''w'', U ''out.mbtiles''] [U ''w'', U ''my-parks.pmtiles'']]"
proof -
  let ?E = "sim_env (\<lambda>c. 0) [] (Inr JNull) :: (unit, int) env"
  let ?up = "[U ''w'', U ''parks.GeoJSON'']"
  have ext: "lower (path_suffix ?up) \<noteq> U ''.zip''"
    by (simp add: eval_text)
  have rt: "route_of_ext (lower (path_suffix ?up)) = FromInterchange"
    by (simp add: eval_text route_of_ext_def)
  have r: "fst (ensure_pmtiles ?E ?up (U ''my parks'') [U ''w''] start)
      = Inr ([U ''w'', U ''my-parks.pmtiles''], None)"
    by (simp add: ensure_non_zip_eq eval_text eval_run sim_env_def start_def probe_value_def)
  have name: "safe_name (U ''my parks'') = U ''my-parks''"
    by (simp add: eval_text)
  have run: "ensure_pmtiles ?E ?up (U ''my parks'') [U ''w''] start
      = (fst (ensure_pmtiles ?E ?up (U ''my parks'') [U ''w''] start),
         snd (ensure_pmtiles ?E ?up (U ''my parks'') [U ''w''] start))"
    by simp
  from route_chosen_by_extension [OF ext run]
  show ?thesis
    unfolding rt r
    by (simp add: ext rt r route_plan_def stage_cmd_def stage_output_def eval_text)
qed

text \<open>
  Claim C2, as amended. For a \<open>.zip\<close> upload the route is not derived from the member
  the unpacking selects: when the unpacking returns a member, whatever its extension, the
  conversion commands follow the plan of FromGenericOgr on that member (generic
  conversion of the member first, then the tile database, then the archive); when the
  unpacking raises, the run ends with that exception and no conversion command runs.
\<close>

theorem zip_route_is_generic:
  assumes "lower (path_suffix upload_path) = U ''.zip''"
    and "ensure_pmtiles env upload_path bundle_name work st = (r, st')"
  shows "case fst (unpack env upload_path work st) of
      Inl e \<Rightarrow> r = Inl e \<and> stage_events (new_events st st') = []
    | Inr member \<Rightarrow>
        follows (route_plan FromGenericOgr member work bundle_name)
          (stage_events (new_events st st'))"
  using ensure_zip_events [OF assms surjective_pairing]
  by (auto split: sum.splits)

theorem zip_route_is_generic_witness:
  "lower (path_suffix [U ''w'', U ''city.zip'']) = U ''.zip''
   \<and> fst (unpack (sim_env (\<lambda>c. 0) [File (U ''a.geojson'')] (Inr JNull))
          [U ''w'', U ''city.zip''] [U ''w''] start)
       = Inr [U ''w'', U ''unzipped'', U ''a.geojson'']
   \<and> follows (route_plan FromGenericOgr [U ''w'', U ''unzipped'', U ''a.geojson''] [U ''w'']
          (U ''city''))
        (stage_events (new_events start (snd (ensure_pmtiles
           (sim_env (\<lambda>c. 0) [File (U ''a.geojson'')] (Inr JNull))
           [U ''w'', U ''city.zip''] (U ''city'') [U ''w''] start))))"
proof -
  let ?E = "sim_env (\<lambda>c. 0) [File (U ''a.geojson'')] (Inr JNull) :: (unit, int) env"
  let ?up = "[U ''w'', U ''city.zip'']"
  have ext: "lower (path_suffix ?up) = U ''.zip''"
    by (simp add: eval_text)
  have run: "ensure_pmtiles ?E ?up (U ''city'') [U ''w''] start
      = (fst (ensure_pmtiles ?E ?up (U ''city'') [U ''w''] start),
         snd (ensure_pmtiles ?E ?up (U ''city'') [U ''w''] start))"
    by simp
  have un: "fst (unpack ?E ?up [U ''w''] start) = Inr [U ''w'', U ''unzipped'', U ''a.geojson'']"
    unfolding demo_unpack by simp
  from zip_route_is_generic [OF ext run] have
    "follows (route_plan FromGenericOgr [U ''w'', U ''unzipped'', U ''a.geojson''] [U ''w'']
        (U ''city''))
      (stage_events (new_events start (snd (ensure_pmtiles ?E ?up (U ''city'') [U ''w'']
        start))))"
    unfolding un by simp
  with ext un show ?thesis
    by simp
qed

text \<open>
  Claim C2 as stated fails: a \<open>.zip\<close> whose selected member is \<open>a.geojson\<close> does not
  follow the plan of FromInterchange for that member; the generic conversion runs on it.
\<close>

theorem zip_member_route_counterexample:
  "lower (path_suffix [U ''w'', U ''city.zip'']) = U ''.zip''
   \<and> fst (unpack (sim_env (\<lambda>c. 0) [File (U ''a.geojson'')] (Inr JNull))
          [U ''w'', U ''city.zip''] [U ''w''] start)
       = Inr [U ''w'', U ''unzipped'', U ''a.geojson'']
   \<and> route_of_ext (lower (path_suffix [U ''w'', U ''unzipped'', U ''a.geojson'']))
       = FromInterchange
   \<and> \<not> follows (route_plan FromInterchange [U ''w'', U ''unzipped'', U ''a.geojson'']
            [U ''w''] (U ''city''))
          (stage_events (new_events start (snd (ensure_pmtiles
             (sim_env (\<lambda>c. 0) [File (U ''a.geojson'')] (Inr JNull))
             [U ''w'', U ''city.zip''] (U ''city'') [U ''w''] start))))
   \<and> map event_cmd (stage_events (new_events start (snd (ensure_pmtiles
             (sim_env (\<lambda>c. 0) [File (U ''a.geojson'')] (Inr JNull))
             [U ''w'', U ''city.zip''] (U ''city'') [U ''w''] start))))
       = [ogr2ogr_cmd [U ''w'', U ''unzipped'', U ''a.geojson'']
            [U ''w'', U ''converted.geojson''],
          tippecanoe_cmd [U ''w'', U ''converted.geojson''] [U ''w'', U ''out.mbtiles'']
            (U ''city''),
          pmtiles_cmd [U ''w'', U ''out.mbtiles''] [U ''w'', U ''city.pmtiles'']]"
proof -
  let ?E = "sim_env (\<lambda>c. 0) [File (U ''a.geojson'')] (Inr JNull) :: (unit, int) env"
  have ext: "lower (path_suffix [U ''w'', U ''city.zip'']) = U ''.zip''"
    by (simp add: eval_text)
  have tr: "stage_events (new_events start (snd (ensure_pmtiles ?E
             [U ''w'', U ''city.zip''] (U ''city'') [U ''w''] start)))
      = [Exec (ogr2ogr_cmd [U ''w'', U ''unzipped'', U ''a.geojson'']
            [U ''w'', U ''converted.geojson''])
           (Inr \<lparr>returncode = 0, stdout = U ''out'', stderr = U ''err''\<rparr>),
         Exec (tippecanoe_cmd [U ''w'', U ''converted.geojson''] [U ''w'', U ''out.mbtiles'']
            (U ''city''))
           (Inr \<lparr>returncode = 0, stdout = U ''out'', stderr = U ''err''\<rparr>),
         Exec (pmtiles_cmd [U ''w'', U ''out.mbtiles''] [U ''w'', U ''city.pmtiles''])
           (Inr \<lparr>returncode = 0, stdout = U ''out'', stderr = U ''err''\<rparr>)]"
    by (simp add: ensure_zip_eq eval_unpack eval_text eval_run sim_env_def start_def)
  have un: "fst (unpack ?E [U ''w'', U ''city.zip''] [U ''w''] start)
      = Inr [U ''w'', U ''unzipped'', U ''a.geojson'']"
    unfolding demo_unpack by simp
  show ?thesis
    unfolding tr un
    by (simp add: eval_text route_of_ext_def route_plan_def stage_cmd_def
        stage_output_def ogr2ogr_cmd_def tippecanoe_cmd_def)
qed

section \<open>Bounds extraction\<close>

text \<open>
  Claim C5. The extent prober runs exactly on the routes FromInterchange and FromGenericOgr,
  once, and on the best dataset file: for an upload that is not a \<open>.zip\<close> the only probe
  of the run is \<open>ogrinfo\<close> on the upload itself when the route probes, and there is no
  probe and no bounds on PassThrough and FromTileDatabase; for a \<open>.zip\<close> the only probe
  is \<open>ogrinfo\<close> on the member the unpacking selected (none when the unpacking raised).
\<close>

theorem bounds_probe_by_route:
  assumes "ensure_pmtiles env upload_path bundle_name work st = (r, st')"
  shows "(lower (path_suffix upload_path) \<noteq> U ''.zip'' \<longrightarrow>
            probe_events (new_events st st')
              = (if probes (route_of_ext (lower (path_suffix upload_path)))
                 then [Exec (ogrinfo_cmd upload_path)
                         (outcome env (ogrinfo_cmd upload_path) st)]
                 else [])
            \<and> (\<not> probes (route_of_ext (lower (path_suffix upload_path))) \<longrightarrow>
                 (\<forall>p b. r = Inr (p, b) \<longrightarrow> b = None)))
       \<and> (lower (path_suffix upload_path) = U ''.zip'' \<longrightarrow>
            (case unpack env upload_path work st of
               (Inl e, stu) \<Rightarrow> probe_events (new_events st st') = []
             | (Inr member, stu) \<Rightarrow>
                 probe_events (new_events st st')
                   = [Exec (ogrinfo_cmd member) (outcome env (ogrinfo_cmd member) stu)]))"
proof (cases "lower (path_suffix upload_path) = U ''.zip''")
  case True
  obtain ru stu where u: "unpack env upload_path work st = (ru, stu)"
    by (cases "unpack env upload_path work st")
  from ensure_zip_events [OF True assms u] True u show ?thesis
    by (auto split: sum.splits)
next
  case False
  let ?rt = "route_of_ext (lower (path_suffix upload_path))"
  from ensure_non_zip_trace [OF False assms] obtain S where S:
    "trace st' = trace st
        @ (if probes ?rt
           then [Exec (ogrinfo_cmd upload_path) (outcome env (ogrinfo_cmd upload_path) st)]
           else []) @ S"
    "probe_events S = []"
    "r = (case failure_of env S of
               Some e \<Rightarrow> Inl e
             | None \<Rightarrow>
                 Inr (if ?rt = PassThrough then upload_path
                      else pjoin work (safe_name bundle_name @ U ''.pmtiles''),
                      if probes ?rt
                      then probe_value env (outcome env (ogrinfo_cmd upload_path) st)
                      else None))"
    by blast
  from S(1) have "new_events st st' = (if probes ?rt
           then [Exec (ogrinfo_cmd upload_path) (outcome env (ogrinfo_cmd upload_path) st)]
           else []) @ S"
    by simp
  with S(2,3) False show ?thesis
    by (auto split: option.splits simp del: list.map map_map)
qed

theorem bounds_probe_by_route_witness:
  "lower (path_suffix [U ''w'', U ''city.gpkg'']) \<noteq> U ''.zip''
   \<and> probes (route_of_ext (lower (path_suffix [U ''w'', U ''city.gpkg''])))
   \<and> probe_events (new_events start (snd (ensure_pmtiles (sim_env (\<lambda>c. 0) [] (Inr JNull))
         [U ''w'', U ''city.gpkg''] (U ''city'') [U ''w''] start)))
       = [Exec (ogrinfo_cmd [U ''w'', U ''city.gpkg''])
            (Inr \<lparr>returncode = 0, stdout = U ''out'', stderr = U ''err''\<rparr>)]
   \<and> \<not> probes (route_of_ext (lower (path_suffix [U ''w'', U ''tiles.mbtiles''])))
   \<and> probe_events (new_events start (snd (ensure_pmtiles (sim_env (\<lambda>c. 0) [] (Inr JNull))
         [U ''w'', U ''tiles.mbtiles''] (U ''city'') [U ''w''] start))) = []
   \<and> fst (ensure_pmtiles (sim_env (\<lambda>c. 0) [] (Inr JNull))
         [U ''w'', U ''tiles.mbtiles''] (U ''city'') [U ''w''] start)
       = Inr ([U ''w'', U ''city.pmtiles''], None)
   \<and> lower (path_suffix [U ''w'', U ''city.zip'']) = U ''.zip''
   \<and> probe_events (new_events start (snd (ensure_pmtiles
         (sim_env (\<lambda>c. 0) [File (U ''a.geojson'')] (Inr JNull))
         [U ''w'', U ''city.zip''] (U ''city'') [U ''w''] start)))
       = [Exec (ogrinfo_cmd [U ''w'', U ''unzipped'', U ''a.geojson''])
            (Inr \<lparr>returncode = 0, stdout = U ''out'', stderr = U ''err''\<rparr>)]"
proof -
  let ?E = "sim_env (\<lambda>c. 0) [] (Inr JNull) :: (unit, int) env"
  let ?Z = "sim_env (\<lambda>c. 0) [File (U ''a.geojson'')] (Inr JNull) :: (unit, int) env"
  let ?g = "[U ''w'', U ''city.gpkg'']"
  let ?m = "[U ''w'', U ''tiles.mbtiles'']"
  let ?z = "[U ''w'', U ''city.zip'']"
  have ext_g: "lower (path_suffix ?g) \<noteq> U ''.zip''"
    and pr_g: "probes (route_of_ext (lower (path_suffix ?g)))"
    and ext_m: "lower (path_suffix ?m) \<noteq> U ''.zip''"
    and pr_m: "\<not> probes (route_of_ext (lower (path_suffix ?m)))"
    and ext_z: "lower (path_suffix ?z) = U ''.zip''"
    by (simp_all add: eval_text route_of_ext_def)
  have out_g: "outcome ?E (ogrinfo_cmd ?g) start
      = Inr \<lparr>returncode = 0, stdout = U ''out'', stderr = U ''err''\<rparr>"
    by (simp add: outcome_def sim_env_def)
  have out_z: "outcome ?Z (ogrinfo_cmd [U ''w'', U ''unzipped'', U ''a.geojson''])
        (snd (unpack ?Z ?z [U ''w''] start))
      = Inr \<lparr>returncode = 0, stdout = U ''out'', stderr = U ''err''\<rparr>"
    by (simp add: outcome_def sim_env_def)
  have r_m: "fst (ensure_pmtiles ?E ?m (U ''city'') [U ''w''] start)
      = Inr ([U ''w'', U ''city.pmtiles''], None)"
    by (simp add: ensure_non_zip_eq eval_text eval_run sim_env_def start_def)
  have g: "probe_events (new_events start (snd (ensure_pmtiles ?E ?g (U ''city'') [U ''w'']
      start))) = [Exec (ogrinfo_cmd ?g) (outcome ?E (ogrinfo_cmd ?g) start)]"
    using bounds_probe_by_route [of ?E ?g "U ''city''" "[U ''w'']" start
        "fst (ensure_pmtiles ?E ?g (U ''city'') [U ''w''] start)"
        "snd (ensure_pmtiles ?E ?g (U ''city'') [U ''w''] start)"] ext_g pr_g
    by simp
  have m: "probe_events (new_events start (snd (ensure_pmtiles ?E ?m (U ''city'') [U ''w'']
      start))) = []"
    using bounds_probe_by_route [of ?E ?m "U ''city''" "[U ''w'']" start
        "fst (ensure_pmtiles ?E ?m (U ''city'') [U ''w''] start)"
        "snd (ensure_pmtiles ?E ?m (U ''city'') [U ''w''] start)"] ext_m pr_m
    by simp
  have z: "probe_events (new_events start (snd (ensure_pmtiles ?Z ?z (U ''city'') [U ''w'']
      start)))
      = [Exec (ogrinfo_cmd [U ''w'', U ''unzipped'', U ''a.geojson''])
           (outcome ?Z (ogrinfo_cmd [U ''w'', U ''unzipped'', U ''a.geojson''])
              (snd (unpack ?Z ?z [U ''w''] start)))]"
    using bounds_probe_by_route [of ?Z ?z "U ''city''" "[U ''w'']" start
        "fst (ensure_pmtiles ?Z ?z (U ''city'') [U ''w''] start)"
        "snd (ensure_pmtiles ?Z ?z (U ''city'') [U ''w''] start)"] ext_z
    unfolding demo_unpack
    by simp
  show ?thesis
    using ext_g pr_g ext_m pr_m ext_z r_m g m z unfolding out_g out_z
    by simp
qed

section \<open>The extent prober\<close>

lemma first_extent_length: "first_extent j = Some ext \<Longrightarrow> length ext = 4"
  using all_extents_length [of ext j]
  by (auto simp: first_extent_def split: list.splits)

text \<open>
  Claim C9. When the tool exits with zero and its output parses to \<open>j\<close>, the search of
  the program finds the first extent in the order of the specification (depth first, a
  dict's own \<open>extent\<close> key before its values), and the prober returns the four elements
  of that value coerced by \<open>float\<close> in order (no bounds when there is no such value or
  one coercion raises).
\<close>

theorem extent_is_first_found:
  assumes "outcome env (ogrinfo_cmd dataset_path) st = Inr p"
    and "returncode p = 0"
    and "json_loads env (stdout p) = Inr j"
  shows "find_extent j = first_extent j
    \<and> fst (ogrinfo_bounds env dataset_path st)
        = Inr (case first_extent j of
                 None \<Rightarrow> None
               | Some ext \<Rightarrow> all_floats (map (py_float env) ext))"
  using assms first_extent_length [of j]
  by (auto simp: ogrinfo_bounds_eq probe_value_def find_extent_first(1)
      split: option.splits)

theorem extent_is_first_found_witness:
  "outcome (sim_env (\<lambda>c. 0) [] (Inr demo_report)) (ogrinfo_cmd [U ''w'', U ''city.gpkg'']) start
     = Inr \<lparr>returncode = 0, stdout = U ''out'', stderr = U ''err''\<rparr>
   \<and> json_loads (sim_env (\<lambda>c. 0) [] (Inr demo_report)) (U ''out'') = Inr demo_report
   \<and> all_extents demo_report
       = [[JInt 5, JInt 6, JInt 7, JInt 8], [JInt 10, JInt 20, JBool True, JInt 40]]
   \<and> find_extent demo_report = Some [JInt 5, JInt 6, JInt 7, JInt 8]
   \<and> fst (ogrinfo_bounds (sim_env (\<lambda>c. 0) [] (Inr demo_report)) [U ''w'', U ''city.gpkg'']
          start) = Inr (Some [5, 6, 7, 8])"
proof -
  let ?E = "sim_env (\<lambda>c. 0) [] (Inr demo_report) :: (unit, int) env"
  have out: "outcome ?E (ogrinfo_cmd [U ''w'', U ''city.gpkg'']) start
      = Inr \<lparr>returncode = 0, stdout = U ''out'', stderr = U ''err''\<rparr>"
    by (simp add: outcome_def sim_env_def)
  have js: "json_loads ?E (stdout \<lparr>returncode = 0, stdout = U ''out'', stderr = U ''err''\<rparr>)
      = Inr demo_report"
    by (simp add: sim_env_def)
  have ex: "all_extents demo_report
      = [[JInt 5, JInt 6, JInt 7, JInt 8], [JInt 10, JInt 20, JBool True, JInt 40]]"
    by (simp add: demo_report_def own_extent_def)
  have fl: "all_floats (map (py_float ?E) [JInt 5, JInt 6, JInt 7, JInt 8]) = Some [5, 6, 7, 8]"
    by (simp add: all_floats_def sim_env_def)
  from extent_is_first_found [OF out _ js] ex fl out show ?thesis
    by (simp add: first_extent_def sim_env_def)
qed

lemma follows_nonempty: "follows cmds S \<Longrightarrow> cmds \<noteq> [] \<Longrightarrow> S \<noteq> []"
  by (cases cmds) auto

lemma probing_plan_nonempty: "probes rt \<Longrightarrow> route_plan rt src work bn \<noteq> []"
  by (cases rt) (simp_all add: route_plan_def)

text \<open>
  Claim C4. The prober returns for every dataset path, environment and state, and it
  returns no bounds when the tool cannot be started, exits with a non-zero status, prints
  what \<open>json.loads\<close> rejects, prints a report without a four-element \<open>extent\<close>, or
  prints an extent with an element that \<open>float\<close> rejects. Whatever the prober returned,
  the run goes on to its first conversion stage: on a probing route for an upload that is
  not a \<open>.zip\<close>, and for a \<open>.zip\<close> whenever the unpacking returned a member.
\<close>

theorem prober_never_raises:
  "(\<exists>b. fst (ogrinfo_bounds env dataset_path st) = Inr b)
   \<and> (outcome env (ogrinfo_cmd dataset_path) st = Inl e \<longrightarrow>
        fst (ogrinfo_bounds env dataset_path st) = Inr None)
   \<and> (outcome env (ogrinfo_cmd dataset_path) st = Inr p \<and> returncode p \<noteq> 0 \<longrightarrow>
        fst (ogrinfo_bounds env dataset_path st) = Inr None)
   \<and> (outcome env (ogrinfo_cmd dataset_path) st = Inr p \<and> json_loads env (stdout p) = Inl e \<longrightarrow>
        fst (ogrinfo_bounds env dataset_path st) = Inr None)
   \<and> (outcome env (ogrinfo_cmd dataset_path) st = Inr p \<and> json_loads env (stdout p) = Inr j
        \<and> all_extents j = [] \<longrightarrow>
        fst (ogrinfo_bounds env dataset_path st) = Inr None)
   \<and> (outcome env (ogrinfo_cmd dataset_path) st = Inr p \<and> json_loads env (stdout p) = Inr j
        \<and> first_extent j = Some ext \<and> list_ex isl (map (py_float env) ext) \<longrightarrow>
        fst (ogrinfo_bounds env dataset_path st) = Inr None)
   \<and> (lower (path_suffix upload_path) \<noteq> U ''.zip''
        \<and> probes (route_of_ext (lower (path_suffix upload_path))) \<longrightarrow>
        stage_events (new_events st
          (snd (ensure_pmtiles env upload_path bundle_name work st))) \<noteq> [])
   \<and> (lower (path_suffix upload_path) = U ''.zip''
        \<and> fst (unpack env upload_path work st) = Inr member \<longrightarrow>
        stage_events (new_events st
          (snd (ensure_pmtiles env upload_path bundle_name work st))) \<noteq> [])"
proof -
  have "stage_events (new_events st
          (snd (ensure_pmtiles env upload_path bundle_name work st))) \<noteq> []"
    if ext: "lower (path_suffix upload_path) \<noteq> U ''.zip''"
      and pr: "probes (route_of_ext (lower (path_suffix upload_path)))"
  proof -
    let ?rt = "route_of_ext (lower (path_suffix upload_path))"
    obtain r st' where run: "ensure_pmtiles env upload_path bundle_name work st = (r, st')"
      by (cases "ensure_pmtiles env upload_path bundle_name work st")
    from ensure_non_zip_trace [OF ext run] pr obtain S where S:
      "trace st' = trace st
        @ [Exec (ogrinfo_cmd upload_path) (outcome env (ogrinfo_cmd upload_path) st)] @ S"
      "follows (route_plan ?rt upload_path work bundle_name) S" "stage_events S = S"
      by auto
    from S(1) have "new_events st st'
        = [Exec (ogrinfo_cmd upload_path) (outcome env (ogrinfo_cmd upload_path) st)] @ S"
      by simp
    with S(2,3) follows_nonempty [OF S(2) probing_plan_nonempty [OF pr]] run show ?thesis
      by simp
  qed
  moreover have "stage_events (new_events st
          (snd (ensure_pmtiles env upload_path bundle_name work st))) \<noteq> []"
    if ext: "lower (path_suffix upload_path) = U ''.zip''"
      and un: "fst (unpack env upload_path work st) = Inr member"
  proof -
    have run: "ensure_pmtiles env upload_path bundle_name work st
        = (fst (ensure_pmtiles env upload_path bundle_name work st),
           snd (ensure_pmtiles env upload_path bundle_name work st))"
      by simp
    have u: "unpack env upload_path work st
        = (Inr member, snd (unpack env upload_path work st))"
      using un by (cases "unpack env upload_path work st") simp
    from ensure_zip_events [OF ext run u] have
      "follows (route_plan FromGenericOgr member work bundle_name)
         (stage_events (new_events st
            (snd (ensure_pmtiles env upload_path bundle_name work st))))"
      by simp
    from follows_nonempty [OF this probing_plan_nonempty [of FromGenericOgr, simplified]]
    show ?thesis .
  qed
  ultimately show ?thesis
    using first_extent_length [of j ext]
    by (auto simp: ogrinfo_bounds_eq probe_value_def find_extent_first(1) first_extent_def
        all_floats_def split: option.splits sum.splits)
qed

theorem prober_never_raises_witness:
  "outcome (sim_env (fails_on (U ''ogrinfo'')) [] (Inr JNull))
       (ogrinfo_cmd [U ''w'', U ''city.gpkg'']) start
     = Inr \<lparr>returncode = 1, stdout = U ''out'', stderr = U ''err''\<rparr>
   \<and> fst (ogrinfo_bounds (sim_env (fails_on (U ''ogrinfo'')) [] (Inr JNull))
          [U ''w'', U ''city.gpkg''] start) = Inr None
   \<and> stage_events (new_events start
        (snd (ensure_pmtiles (sim_env (fails_on (U ''ogrinfo'')) [] (Inr JNull))
           [U ''w'', U ''city.gpkg''] (U ''city'') [U ''w''] start))) \<noteq> []
   \<and> fst (ogrinfo_bounds (sim_env (\<lambda>c. 0) [] (Inl (OtherException (U ''JSONDecodeError''))))
          [U ''w'', U ''city.gpkg''] start) = Inr None
   \<and> all_extents (JDict [(U ''extent'', JList [JInt 1, JInt 2, JInt (3::int)])]) = []
   \<and> fst (ogrinfo_bounds
          (sim_env (\<lambda>c. 0) [] (Inr (JDict [(U ''extent'', JList [JInt 1, JInt 2, JInt 3])])))
          [U ''w'', U ''city.gpkg''] start) = Inr None
   \<and> first_extent (JDict [(U ''extent'', JList [JStr (U ''a''), JInt 2, JInt 3, JInt (4::int)])])
       = Some [JStr (U ''a''), JInt 2, JInt 3, JInt 4]
   \<and> fst (ogrinfo_bounds
          (sim_env (\<lambda>c. 0) []
             (Inr (JDict [(U ''extent'', JList [JStr (U ''a''), JInt 2, JInt 3, JInt 4])])))
          [U ''w'', U ''city.gpkg''] start) = Inr None
   \<and> lower (path_suffix [U ''w'', U ''city.zip'']) = U ''.zip''
   \<and> fst (unpack (sim_env (fails_on (U ''ogrinfo'')) [File (U ''a.geojson'')] (Inr JNull))
          [U ''w'', U ''city.zip''] [U ''w''] start)
       = Inr [U ''w'', U ''unzipped'', U ''a.geojson'']
   \<and> stage_events (new_events start
        (snd (ensure_pmtiles
           (sim_env (fails_on (U ''ogrinfo'')) [File (U ''a.geojson'')] (Inr JNull))
           [U ''w'', U ''city.zip''] (U ''city'') [U ''w''] start))) \<noteq> []"
proof -
  let ?d = "[U ''w'', U ''city.gpkg'']"
  let ?z = "[U ''w'', U ''city.zip'']"
  let ?Z = "sim_env (fails_on (U ''ogrinfo'')) [File (U ''a.geojson'')] (Inr JNull)
      :: (unit, int) env"
  let ?ok = "\<lparr>returncode = 0, stdout = U ''out'', stderr = U ''err''\<rparr>"
  let ?bad = "\<lparr>returncode = 1, stdout = U ''out'', stderr = U ''err''\<rparr>"
  let ?E1 = "sim_env (fails_on (U ''ogrinfo'')) [] (Inr JNull) :: (unit, int) env"
  let ?E2 = "sim_env (\<lambda>c. 0) [] (Inl (OtherException (U ''JSONDecodeError'')))
      :: (unit, int) env"
  let ?j3 = "JDict [(U ''extent'', JList [JInt 1, JInt 2, JInt (3::int)])]"
  let ?j4 = "JDict [(U ''extent'', JList [JStr (U ''a''), JInt 2, JInt 3, JInt (4::int)])]"
  let ?E3 = "sim_env (\<lambda>c. 0) [] (Inr ?j3) :: (unit, int) env"
  let ?E4 = "sim_env (\<lambda>c. 0) [] (Inr ?j4) :: (unit, int) env"
  have out1: "outcome ?E1 (ogrinfo_cmd ?d) start = Inr ?bad"
    by (simp add: outcome_def sim_env_def fails_on_def ogrinfo_cmd_def)
  have ext: "lower (path_suffix ?d) \<noteq> U ''.zip''"
    "probes (route_of_ext (lower (path_suffix ?d)))"
    by (simp_all add: eval_text route_of_ext_def)
  have w1: "fst (ogrinfo_bounds ?E1 ?d start) = Inr None
      \<and> stage_events (new_events start
          (snd (ensure_pmtiles ?E1 ?d (U ''city'') [U ''w''] start))) \<noteq> []"
    using prober_never_raises [where env = ?E1 and dataset_path = ?d and st = start
        and p = ?bad and upload_path = ?d and bundle_name = "U ''city''" and work = "[U ''w'']"]
      out1 ext
    by simp
  have out2: "outcome ?E2 (ogrinfo_cmd ?d) start = Inr ?ok"
    "json_loads ?E2 (stdout ?ok) = Inl (OtherException (U ''JSONDecodeError''))"
    by (simp_all add: outcome_def sim_env_def)
  have w2: "fst (ogrinfo_bounds ?E2 ?d start) = Inr None"
    using prober_never_raises [where env = ?E2 and dataset_path = ?d and st = start
        and p = ?ok and e = "OtherException (U ''JSONDecodeError'')"] out2
    by simp
  have out3: "outcome ?E3 (ogrinfo_cmd ?d) start = Inr ?ok"
    "json_loads ?E3 (stdout ?ok) = Inr ?j3" "all_extents ?j3 = []"
    by (simp_all add: outcome_def sim_env_def own_extent_def)
  have w3: "fst (ogrinfo_bounds ?E3 ?d start) = Inr None"
    using prober_never_raises [where env = ?E3 and dataset_path = ?d and st = start
        and p = ?ok and j = ?j3] out3
    by (simp add: own_extent_def)
  have out4: "outcome ?E4 (ogrinfo_cmd ?d) start = Inr ?ok"
    "json_loads ?E4 (stdout ?ok) = Inr ?j4"
    "first_extent ?j4 = Some [JStr (U ''a''), JInt 2, JInt 3, JInt 4]"
    "list_ex isl (map (py_float ?E4) [JStr (U ''a''), JInt 2, JInt 3, JInt 4])"
    by (simp_all add: outcome_def sim_env_def own_extent_def first_extent_def)
  have w4: "fst (ogrinfo_bounds ?E4 ?d start) = Inr None"
    using prober_never_raises [where env = ?E4 and dataset_path = ?d and st = start
        and p = ?ok and j = ?j4 and ext = "[JStr (U ''a''), JInt 2, JInt 3, JInt 4]"] out4
    by (simp add: own_extent_def first_extent_def sim_env_def)
  have extz: "lower (path_suffix ?z) = U ''.zip''"
    by (simp add: eval_text)
  have unz: "fst (unpack ?Z ?z [U ''w''] start) = Inr [U ''w'', U ''unzipped'', U ''a.geojson'']"
    by (simp add: eval_unpack eval_text eval_run sim_env_def start_def fails_on_def
        unzip_cmd_def)
  have w5: "stage_events (new_events start
      (snd (ensure_pmtiles ?Z ?z (U ''city'') [U ''w''] start))) \<noteq> []"
    using prober_never_raises [where env = ?Z and st = start and upload_path = ?z
        and bundle_name = "U ''city''" and work = "[U ''w'']"
        and member = "[U ''w'', U ''unzipped'', U ''a.geojson'']"] extz unz
    by simp
  from out1 w1 w2 out3(3) w3 out4(3) w4 extz unz w5 show ?thesis
    by simp
qed

section \<open>Member selection\<close>

text \<open>
  Claim C8 at a container whose only entry is an empty directory named \<open>a.shp\<close>: the
  walk finds no regular file, yet the selection returns the directory (the pattern
  \<open>*.shp\<close> is not filtered by \<open>is_file\<close>, the fallback is), no \<open>HTTPException\<close> is
  raised, and with tools that exit with zero the run returns an archive path.
\<close>

theorem shp_directory_is_selected:
  "filter (\<lambda>p. is_file (snd p)) (rglob glob_any [U ''w'', U ''unzipped''] [Dir (U ''a.shp'') []])
     = []
   \<and> select_member [U ''w'', U ''unzipped''] [Dir (U ''a.shp'') []]
       = Inr [U ''w'', U ''unzipped'', U ''a.shp'']
   \<and> select_member [U ''w'', U ''unzipped''] [Dir (U ''data'') []]
       = Inl (HTTPException 400 (U ''Zip was empty or contained no files.''))
   \<and> fst (ensure_pmtiles (sim_env (\<lambda>c. 0) [Dir (U ''a.shp'') []] (Inr JNull))
          [U ''w'', U ''city.zip''] (U ''city'') [U ''w''] start)
       = Inr ([U ''w'', U ''city.pmtiles''], None)
   \<and> hd (new_events start (snd (ensure_pmtiles
          (sim_env (\<lambda>c. 0) [Dir (U ''a.shp'') []] (Inr JNull))
          [U ''w'', U ''city.zip''] (U ''city'') [U ''w''] start)))
       = Mkdir [U ''w'', U ''unzipped'']
   \<and> map event_cmd (tl (new_events start (snd (ensure_pmtiles
          (sim_env (\<lambda>c. 0) [Dir (U ''a.shp'') []] (Inr JNull))
          [U ''w'', U ''city.zip''] (U ''city'') [U ''w''] start))))
       = [unzip_cmd [U ''w'', U ''city.zip''] [U ''w'', U ''unzipped''],
          ogrinfo_cmd [U ''w'', U ''unzipped'', U ''a.shp''],
          ogr2ogr_cmd [U ''w'', U ''unzipped'', U ''a.shp''] [U ''w'', U ''converted.geojson''],
          tippecanoe_cmd [U ''w'', U ''converted.geojson''] [U ''w'', U ''out.mbtiles'']
            (U ''city''),
          pmtiles_cmd [U ''w'', U ''out.mbtiles''] [U ''w'', U ''city.pmtiles'']]"
  by (simp add: ensure_zip_eq eval_unpack eval_text eval_run sim_env_def start_def
      probe_value_def ogr2ogr_cmd_def tippecanoe_cmd_def pmtiles_cmd_def unzip_cmd_def
      ogrinfo_cmd_def)

section \<open>The driver as a whole\<close>

lemma create_bundle_eq:
  "create_bundle env cfg bid name desc file st =
     (case fst (os_mkdir env (work_of cfg bid) (world st)) of
        Inl e \<Rightarrow>
          (Inl e, after_effect (os_mkdir env (work_of cfg bid)) (Mkdir (work_of cfg bid)) st)
      | Inr u \<Rightarrow>
          (except_runtime_error
             (fst (create_bundle_try env cfg bid (bundle_name_of name) desc
                     (original_filename_of file) file (work_of cfg bid)
                     (after_effect (os_mkdir env (work_of cfg bid))
                        (Mkdir (work_of cfg bid)) st))),
           rmtree_ignore_errors env (work_of cfg bid)
             (snd (create_bundle_try env cfg bid (bundle_name_of name) desc
                     (original_filename_of file) file (work_of cfg bid)
                     (after_effect (os_mkdir env (work_of cfg bid))
                        (Mkdir (work_of cfg bid)) st)))))"
  by (simp add: create_bundle_def Let_def effect_eq bundle_name_of_def
      original_filename_of_def work_of_def split: sum.splits prod.splits
      del: list.map map_map)

lemma trace_rmtree [simp]:
  "trace (rmtree_ignore_errors env p st) = trace st @ [Rmtree p]"
  by (simp add: rmtree_ignore_errors_def effect_eq)

text \<open>The trace of the driver once the working directory was created.\<close>

lemma create_bundle_shape:
  assumes "create_bundle env cfg bid name desc file st = (r, st')"
    and "fst (os_mkdir env (work_of cfg bid) (world st)) = Inr u"
  shows "\<exists>rb stb B.
      create_bundle_try env cfg bid (bundle_name_of name) desc (original_filename_of file)
        file (work_of cfg bid)
        (after_effect (os_mkdir env (work_of cfg bid)) (Mkdir (work_of cfg bid)) st)
        = (rb, stb)
      \<and> r = except_runtime_error rb
      \<and> trace stb = trace st @ Mkdir (work_of cfg bid) # B
      \<and> trace st' = trace st @ Mkdir (work_of cfg bid) # B @ [Rmtree (work_of cfg bid)]"
proof -
  let ?st0 = "after_effect (os_mkdir env (work_of cfg bid)) (Mkdir (work_of cfg bid)) st"
  obtain rb stb where t: "create_bundle_try env cfg bid (bundle_name_of name) desc
      (original_filename_of file) file (work_of cfg bid) ?st0 = (rb, stb)"
    by (cases "create_bundle_try env cfg bid (bundle_name_of name) desc
      (original_filename_of file) file (work_of cfg bid) ?st0")
  from create_bundle_try_shape [OF t] obtain B where B: "trace stb = trace ?st0 @ B"
    by blast
  from assms t have "r = except_runtime_error rb"
    "st' = rmtree_ignore_errors env (work_of cfg bid) stb"
    by (simp_all add: create_bundle_eq)
  with B t show ?thesis
    by (intro exI [of _ rb] exI [of _ stb] exI [of _ B]) simp
qed

lemma failed_stages_Cons [simp]:
  "failed_stages (e # tr)
     = (if is_stage_event e \<and> \<not> exit_ok e then e # failed_stages tr else failed_stages tr)"
  by (simp add: failed_stages_def)

lemma runs_of_Cons [simp]:
  "runs_of cmd (e # tr) = (if event_cmd e = cmd then e # runs_of cmd tr else runs_of cmd tr)"
  by (simp add: runs_of_def)

lemma kept_outputs_Cons [simp]:
  "kept_outputs (e # tr) = (if is_kept e then e # kept_outputs tr else kept_outputs tr)"
  by (simp add: kept_outputs_def)

lemma failed_stages_Nil [simp]: "failed_stages [] = []"
  by (simp add: failed_stages_def)

lemma runs_of_Nil [simp]: "runs_of cmd [] = []"
  by (simp add: runs_of_def)

lemma kept_outputs_Nil [simp]: "kept_outputs [] = []"
  by (simp add: kept_outputs_def)

lemma stage_cmd_nonempty: "stage_of_cmd cmd \<noteq> None \<Longrightarrow> cmd \<noteq> []"
  by (auto simp: stage_of_cmd_def)

lemma and_then_ensure:
  "and_then (ensure_pmtiles env up bn work) f st =
     (case fst (ensure_pmtiles env up bn work st) of
        Inl e \<Rightarrow> (Inl e, snd (ensure_pmtiles env up bn work st))
      | Inr x \<Rightarrow> f x (snd (ensure_pmtiles env up bn work st)))"
  by (simp add: and_then_def split: prod.splits sum.splits)

lemma demo_failing_run:
  "create_bundle (sim_env (fails_on (U ''tippecanoe'')) [] (Inr JNull)) demo_cfg (U ''id'')
      (U ''city'') [] demo_file start
   = (Inl (HTTPException 400
        (command_failed (sim_env (fails_on (U ''tippecanoe'')) [] (Inr JNull) :: (unit, int) env)
           (tippecanoe_cmd [U ''w'', U ''id'', U ''city.geojson'']
              [U ''w'', U ''id'', U ''out.mbtiles''] (U ''city''))
           \<lparr>returncode = 1, stdout = U ''out'', stderr = U ''err''\<rparr>)),
      \<lparr>world = (),
       trace = [Mkdir [U ''w'', U ''id''],
                SaveUpload [U ''w'', U ''id'', U ''city.geojson''],
                S3Put (U ''/w/id/city.geojson'') (U ''sources/id/city.geojson''),
                Exec (ogrinfo_cmd [U ''w'', U ''id'', U ''city.geojson''])
                  (Inr \<lparr>returncode = 0, stdout = U ''out'', stderr = U ''err''\<rparr>),
                Exec (tippecanoe_cmd [U ''w'', U ''id'', U ''city.geojson'']
                        [U ''w'', U ''id'', U ''out.mbtiles''] (U ''city''))
                  (Inr \<lparr>returncode = 1, stdout = U ''out'', stderr = U ''err''\<rparr>),
                Rmtree [U ''w'', U ''id'']]\<rparr>)"
  by (simp add: create_bundle_eq work_of_def bundle_name_of_def original_filename_of_def
      or_else_def create_bundle_try_eq s3_put_file_def ensure_non_zip_eq eval_text eval_run
      sim_env_def start_def fails_on_def probe_value_def demo_cfg_def demo_file_def
      except_runtime_error_def rmtree_ignore_errors_def effect_eq ogrinfo_cmd_def
      tippecanoe_cmd_def source_key_of_def command_failed_def run_plan_def and_then_ensure)

section \<open>A failing conversion stage\<close>

text \<open>
  Claim C3, as amended. When a conversion command of a run of \<open>create_bundle\<close> exits
  with a non-zero status, the caller gets \<open>HTTPException(400)\<close> whose detail is the
  message of \<open>run\<close> with the command's argument list and its two output streams; the
  failing command is the last effect before the removal of the working directory, it is
  the only conversion command of the run that failed, and it ran once; and of the run
  only the copy of the raw upload stored under \<open>sources/\<close> before the conversion is
  kept: no archive object, no row of the catalog.
\<close>

theorem failing_stage_aborts_run:
  assumes "create_bundle env cfg bundle_id name description file st = (r, st')"
    and "Exec cmd (Inr p) \<in> set (new_events st st')"
    and "stage_of_cmd cmd \<noteq> None"
    and "returncode p \<noteq> 0"
  shows "r = Inl (HTTPException 400 (command_failed env cmd p))
    \<and> command_failed env cmd p
        = U ''Command failed: '' @ repr_list env cmd @ [10] @ U ''STDOUT:'' @ [10] @ stdout p
            @ [10] @ U ''STDERR:'' @ [10] @ stderr p
    \<and> last (new_events st st') = Rmtree (work_of cfg bundle_id)
    \<and> last (butlast (new_events st st')) = Exec cmd (Inr p)
    \<and> failed_stages (new_events st st') = [Exec cmd (Inr p)]
    \<and> runs_of cmd (new_events st st') = [Exec cmd (Inr p)]
    \<and> kept_outputs (new_events st st')
        = [S3Put (path_str (pjoin (work_of cfg bundle_id) (original_filename_of file)))
             (source_key_of bundle_id (original_filename_of file))]"
proof -
  let ?work = "work_of cfg bundle_id"
  let ?ofn = "original_filename_of file"
  let ?up = "pjoin ?work ?ofn"
  let ?src = "S3Put (path_str ?up) (source_key_of bundle_id ?ofn)"
  let ?ev = "Exec cmd (Inr p)"
  let ?st0 = "after_effect (os_mkdir env ?work) (Mkdir ?work) st"
  have cmd: "cmd \<noteq> []"
    using assms(3) by (rule stage_cmd_nonempty)
  obtain u where mk: "fst (os_mkdir env ?work (world st)) = Inr u"
  proof (cases "fst (os_mkdir env ?work (world st))")
    case (Inl e)
    with assms(1) have "st' = ?st0"
      by (simp add: create_bundle_eq)
    then have "new_events st st' = [Mkdir ?work]"
      by simp
    with assms(2) show ?thesis by simp
  qed
  from create_bundle_shape [OF assms(1) mk] obtain rb stb B where sh:
    "create_bundle_try env cfg bundle_id (bundle_name_of name) description ?ofn file ?work ?st0
      = (rb, stb)"
    "r = except_runtime_error rb"
    "trace stb = trace st @ Mkdir ?work # B"
    "trace st' = trace st @ Mkdir ?work # B @ [Rmtree ?work]"
    by blast
  from sh(4) have ne: "new_events st st' = Mkdir ?work # B @ [Rmtree ?work]"
    by (rule new_events_append)
  with assms(2) have inB: "?ev \<in> set B"
    by simp
  from create_bundle_try_shape [OF sh(1)] obtain B' where B':
    "trace stb = trace ?st0 @ B'"
    "((\<exists>e. rb = Inl e) \<and> (B' = [SaveUpload ?up] \<or> B' = [SaveUpload ?up, ?src]))
      \<or> (\<exists>st2 re st3 T. ensure_pmtiles env ?up (bundle_name_of name) ?work st2 = (re, st3)
            \<and> B' = SaveUpload ?up # ?src # new_events st2 st3 @ T
            \<and> (case re of
                  Inl e \<Rightarrow> rb = Inl e \<and> T = []
                | Inr x \<Rightarrow>
                    T = [S3Put (path_str (fst x)) (pmtiles_key_of bundle_id (bundle_name_of name))]
                    \<or> T = [S3Put (path_str (fst x))
                              (pmtiles_key_of bundle_id (bundle_name_of name)),
                            DbInsert bundle_id]))"
    by blast
  from B'(1) [symmetric, THEN trans, OF sh(3)] have "B' = B"
    by (simp add: after_effect_def)
  have "\<not> ((\<exists>e. rb = Inl e) \<and> (B = [SaveUpload ?up] \<or> B = [SaveUpload ?up, ?src]))"
    using inB by auto
  with B'(2) [unfolded \<open>B' = B\<close>] obtain st2 re st3 T where en:
    "ensure_pmtiles env ?up (bundle_name_of name) ?work st2 = (re, st3)"
    "B = SaveUpload ?up # ?src # new_events st2 st3 @ T"
    "case re of
       Inl e \<Rightarrow> rb = Inl e \<and> T = []
     | Inr x \<Rightarrow>
         T = [S3Put (path_str (fst x)) (pmtiles_key_of bundle_id (bundle_name_of name))]
         \<or> T = [S3Put (path_str (fst x)) (pmtiles_key_of bundle_id (bundle_name_of name)),
                 DbInsert bundle_id]"
    by blast
  define E where "E = new_events st2 st3"
  have "?ev \<notin> set T"
    using en(3) by (cases re) auto
  with inB en(2) have inE: "?ev \<in> set E"
    by (simp add: E_def)
  from ensure_failed_stage [OF en(1) inE [unfolded E_def] assms(3,4)] have F:
    "re = Inl (RuntimeError (command_failed env cmd p))"
    "last E = ?ev" "failed_stages E = [?ev]" "runs_of cmd E = [?ev]"
    by (simp_all add: E_def)
  from ensure_frame [OF en(1), THEN conjunct2, THEN conjunct1] have K: "kept_outputs E = []"
    by (simp add: E_def)
  from F(1) en(3) have rb: "rb = Inl (RuntimeError (command_failed env cmd p))" and T: "T = []"
    by simp_all
  from inE have "E \<noteq> []" by auto
  from ne en(2) T have tr: "new_events st st' = Mkdir ?work # SaveUpload ?up # ?src # E @ [Rmtree ?work]"
    by (simp add: E_def)
  have bl: "butlast (Mkdir ?work # SaveUpload ?up # ?src # E @ [Rmtree ?work])
      = Mkdir ?work # SaveUpload ?up # ?src # E"
    by (simp add: butlast_append)
  show ?thesis
    unfolding tr bl
    using rb sh(2) F(2,3,4) K \<open>E \<noteq> []\<close> cmd
    by (simp add: except_runtime_error_def command_failed_def)
qed

theorem failing_stage_aborts_run_witness:
  "Exec (tippecanoe_cmd [U ''w'', U ''id'', U ''city.geojson'']
           [U ''w'', U ''id'', U ''out.mbtiles''] (U ''city''))
      (Inr \<lparr>returncode = 1, stdout = U ''out'', stderr = U ''err''\<rparr>)
     \<in> set (new_events start (snd (create_bundle
           (sim_env (fails_on (U ''tippecanoe'')) [] (Inr JNull)) demo_cfg (U ''id'')
           (U ''city'') [] demo_file start)))
   \<and> stage_of_cmd (tippecanoe_cmd [U ''w'', U ''id'', U ''city.geojson'']
           [U ''w'', U ''id'', U ''out.mbtiles''] (U ''city''))
       = Some InterchangeToTileDatabase
   \<and> fst (create_bundle (sim_env (fails_on (U ''tippecanoe'')) [] (Inr JNull)) demo_cfg
          (U ''id'') (U ''city'') [] demo_file start)
       = Inl (HTTPException 400
           (U ''Command failed: ''
              @ concat (tippecanoe_cmd [U ''w'', U ''id'', U ''city.geojson'']
                  [U ''w'', U ''id'', U ''out.mbtiles''] (U ''city''))
              @ [10] @ U ''STDOUT:'' @ [10] @ U ''out'' @ [10] @ U ''STDERR:'' @ [10]
              @ U ''err''))
   \<and> last (new_events start (snd (create_bundle
           (sim_env (fails_on (U ''tippecanoe'')) [] (Inr JNull)) demo_cfg (U ''id'')
           (U ''city'') [] demo_file start)))
       = Rmtree [U ''w'', U ''id'']
   \<and> kept_outputs (new_events start (snd (create_bundle
           (sim_env (fails_on (U ''tippecanoe'')) [] (Inr JNull)) demo_cfg (U ''id'')
           (U ''city'') [] demo_file start)))
       = [S3Put (U ''/w/id/city.geojson'') (U ''sources/id/city.geojson'')]"
proof -
  let ?F = "sim_env (fails_on (U ''tippecanoe'')) [] (Inr JNull) :: (unit, int) env"
  let ?cmd = "tippecanoe_cmd [U ''w'', U ''id'', U ''city.geojson'']
      [U ''w'', U ''id'', U ''out.mbtiles''] (U ''city'')"
  let ?p = "\<lparr>returncode = 1, stdout = U ''out'', stderr = U ''err''\<rparr>"
  let ?run = "create_bundle ?F demo_cfg (U ''id'') (U ''city'') [] demo_file start"
  have run: "?run = (fst ?run, snd ?run)"
    by simp
  have ev: "Exec ?cmd (Inr ?p) \<in> set (new_events start (snd ?run))"
    unfolding demo_failing_run by (simp add: start_def new_events_def)
  have st: "stage_of_cmd ?cmd = Some InterchangeToTileDatabase"
    by (simp add: stage_of_cmd_def tippecanoe_cmd_def)
  have rc: "returncode ?p \<noteq> 0"
    by simp
  have w: "work_of demo_cfg (U ''id'') = [U ''w'', U ''id'']"
    "original_filename_of demo_file = U ''city.geojson''"
    by (simp_all add: work_of_def original_filename_of_def demo_cfg_def demo_file_def
        or_else_def eval_text)
  from failing_stage_aborts_run [OF run ev _ rc] st
  have "fst ?run = Inl (HTTPException 400 (command_failed ?F ?cmd ?p))
    \<and> last (new_events start (snd ?run)) = Rmtree (work_of demo_cfg (U ''id''))
    \<and> kept_outputs (new_events start (snd ?run))
        = [S3Put (path_str (pjoin (work_of demo_cfg (U ''id''))
                    (original_filename_of demo_file)))
             (source_key_of (U ''id'') (original_filename_of demo_file))]"
    by simp
  then show ?thesis
    unfolding w using ev st
    by (simp add: command_failed_def sim_env_def eval_text source_key_of_def)
qed

text \<open>
  The run of the claim's counterexample: an upload \<open>city.geojson\<close> whose tile
  generation exits with status 1. The caller gets the rejection, no row is inserted, and
  the copy of the upload stored under \<open>sources/\<close> before the conversion is kept.
\<close>

theorem failed_run_keeps_source_counterexample:
  "failed_stages (new_events start (snd (create_bundle
       (sim_env (fails_on (U ''tippecanoe'')) [] (Inr JNull)) demo_cfg (U ''id'')
       (U ''city'') [] demo_file start))) \<noteq> []
   \<and> isl (fst (create_bundle (sim_env (fails_on (U ''tippecanoe'')) [] (Inr JNull)) demo_cfg
          (U ''id'') (U ''city'') [] demo_file start))
   \<and> kept_outputs (new_events start (snd (create_bundle
       (sim_env (fails_on (U ''tippecanoe'')) [] (Inr JNull)) demo_cfg (U ''id'')
       (U ''city'') [] demo_file start)))
     = [S3Put (U ''/w/id/city.geojson'') (U ''sources/id/city.geojson'')]"
  unfolding demo_failing_run
  by (simp add: start_def new_events_def stage_of_cmd_def tippecanoe_cmd_def ogrinfo_cmd_def)

end
